theory Spec2Isabelle
  imports Main "HOL-Library.Word"
begin

section \<open>Python values, errors and dictionaries\<close>

text \<open>
  The development embeds \<^verbatim>\<open>src/langchain_google_spanner/vector_store.py\<close>.
  Exceptions are values of the type \<open>error\<close>; a function that can raise returns
  \<open>error + 'a\<close> with \<open>Inl\<close> for the exception.
\<close>

datatype error =
    AssertionError
  | IndexError
  | KeyError
  | TypeError
  | OverflowError
  | ValueError string
  | Exception string

text \<open>
  A Python \<^verbatim>\<open>float\<close> is carried as its 64 bits: the code never computes with
  one, it only moves vectors and distances between its collaborators.
\<close>

type_synonym float64 = "64 word"

text \<open>
  Cell values of a row and values of a metadata mapping. A Python \<^verbatim>\<open>dict\<close> keeps
  its keys in insertion order, so it is an association list with distinct keys.
  \<open>JsonObject\<close> is the object form of \<^verbatim>\<open>google.cloud.spanner_v1.JsonObject\<close>,
  a \<^verbatim>\<open>dict\<close> subclass: \<^verbatim>\<open>JsonObject(d)\<close> copies the items of \<^verbatim>\<open>d\<close>.
\<close>

datatype pyval =
    PyNone
  | PyBool bool
  | PyInt int
  | PyFloat float64
  | PyStr string
  | PyList "pyval list"
  | PyDict "(string \<times> pyval) list"
  | JsonObject "(string \<times> pyval) list"

type_synonym 'v pydict = "(string \<times> 'v) list"

text \<open>Truth value testing, as \<^verbatim>\<open>if x:\<close> and \<^verbatim>\<open>a and x\<close> do it.\<close>

fun truthy :: "pyval \<Rightarrow> bool" where
  "truthy PyNone = False"
| "truthy (PyBool b) = b"
| "truthy (PyInt i) = (i \<noteq> 0)"
| "truthy (PyFloat w) = (w \<noteq> 0 \<and> w \<noteq> push_bit 63 1)"
| "truthy (PyStr s) = (s \<noteq> [])"
| "truthy (PyList l) = (l \<noteq> [])"
| "truthy (PyDict d) = (d \<noteq> [])"
| "truthy (JsonObject d) = (d \<noteq> [])"

text \<open>\<^verbatim>\<open>d.get(k)\<close>, \<^verbatim>\<open>d[k] = v\<close> and \<^verbatim>\<open>d.keys()\<close>.\<close>

definition dict_get :: "'v pydict \<Rightarrow> string \<Rightarrow> 'v option" where
  "dict_get d k = map_of d k"

fun dict_set :: "'v pydict \<Rightarrow> string \<Rightarrow> 'v \<Rightarrow> 'v pydict" where
  "dict_set [] k v = [(k, v)]"
| "dict_set ((k', v') # d) k v =
     (if k' = k then (k, v) # d else (k', v') # dict_set d k v)"

definition dict_keys :: "'v pydict \<Rightarrow> string list" where
  "dict_keys d = map fst d"

text \<open>
  An argument of type \<^verbatim>\<open>Iterable[str]\<close> is one of three kinds of object, each
  given with the elements it yields. A sequence (a list, a tuple) can be traversed
  any number of times and indexed. A collection (a set, a view of keys) can be
  traversed any number of times and has no indexing. A generator, or any other
  one-shot iterator, yields its elements once, is empty from then on, and has no
  indexing. \<^verbatim>\<open>list(it)\<close> is the first traversal; \<open>traverse_again\<close> is what a
  traversal yields after it.
\<close>

datatype 'a iterable = PySequence "'a list" | PyCollection "'a list" | PyGenerator "'a list"

fun py_list :: "'a iterable \<Rightarrow> 'a list" where
  "py_list (PySequence xs) = xs"
| "py_list (PyCollection xs) = xs"
| "py_list (PyGenerator xs) = xs"

fun traverse_again :: "'a iterable \<Rightarrow> 'a list" where
  "traverse_again (PySequence xs) = xs"
| "traverse_again (PyCollection xs) = xs"
| "traverse_again (PyGenerator xs) = []"

text \<open>\<^verbatim>\<open>xs[i]\<close> for \<^verbatim>\<open>i \<ge> 0\<close>: out of range raises \<^verbatim>\<open>IndexError\<close>.\<close>

definition py_index :: "'a list \<Rightarrow> nat \<Rightarrow> error + 'a" where
  "py_index xs i = (if i < length xs then Inr (xs ! i) else Inl IndexError)"

text \<open>Evaluating a list of computations from left to right: the first exception wins.\<close>

fun sequence_err :: "(error + 'a) list \<Rightarrow> error + 'a list" where
  "sequence_err [] = Inr []"
| "sequence_err (x # xs) =
     (case x of
        Inl e \<Rightarrow> Inl e
      | Inr v \<Rightarrow> (case sequence_err xs of Inl e \<Rightarrow> Inl e | Inr vs \<Rightarrow> Inr (v # vs)))"

section \<open>Strings\<close>

text \<open>\<^verbatim>\<open>sep.join(xs)\<close> and \<^verbatim>\<open>s.rstrip(chars)\<close>.\<close>

fun join :: "string \<Rightarrow> string list \<Rightarrow> string" where
  "join sep [] = []"
| "join sep [x] = x"
| "join sep (x # y # ys) = x @ sep @ join sep (y # ys)"

definition rstrip :: "string \<Rightarrow> string \<Rightarrow> string" where
  "rstrip s chars = rev (dropWhile (\<lambda>c. c \<in> set chars) (rev s))"

text \<open>\<^verbatim>\<open>str(n)\<close> for an integer: its decimal digits, with a minus sign when negative.\<close>

fun str_nat :: "nat \<Rightarrow> string" where
  "str_nat n =
     (if n < 10 then [''0123456789'' ! n]
      else str_nat (n div 10) @ [''0123456789'' ! (n mod 10)])"

declare str_nat.simps [simp del]

definition str_int :: "int \<Rightarrow> string" where
  "str_int i = (if i < 0 then CHR ''-'' # str_nat (nat (- i)) else str_nat (nat i))"

text \<open>
  \<^verbatim>\<open>template.format(**kwargs)\<close> for templates whose replacement fields are plain
  names \<^verbatim>\<open>{name}\<close>, as all templates of this file are: each field is replaced by
  the text bound to its name, the inserted text is not scanned again.
\<close>

function str_format :: "string \<Rightarrow> (string \<times> string) list \<Rightarrow> error + string" where
  "str_format [] kwargs = Inr []"
| "str_format (c # cs) kwargs =
     (if c = CHR ''{'' then
        (case dropWhile (\<lambda>x. x \<noteq> CHR ''}'') cs of
           [] \<Rightarrow> Inl (ValueError ''expected '}' before end of string'')
         | _ # rest \<Rightarrow>
            (case map_of kwargs (takeWhile (\<lambda>x. x \<noteq> CHR ''}'') cs) of
               None \<Rightarrow> Inl KeyError
             | Some v \<Rightarrow>
                (case str_format rest kwargs of
                   Inl e \<Rightarrow> Inl e
                 | Inr out \<Rightarrow> Inr (v @ out))))
      else if c = CHR ''}'' then Inl (ValueError ''Single '}' encountered in format string'')
      else (case str_format cs kwargs of
              Inl e \<Rightarrow> Inl e
            | Inr out \<Rightarrow> Inr (c # out)))"
  by pat_completeness auto
termination
proof (relation "measure (\<lambda>(t, _). length t)")
  show "wf (measure (\<lambda>(t, _). length t))" by simp
next
  fix c :: char and cs kwargs x21 rest
  assume "dropWhile (\<lambda>x. x \<noteq> CHR ''}'') cs = x21 # rest"
  then have "length rest < length (dropWhile (\<lambda>x. x \<noteq> CHR ''}'') cs)" by simp
  also have "\<dots> \<le> length cs" by (induction cs) auto
  finally show "((rest, kwargs), c # cs, kwargs) \<in> measure (\<lambda>(t, _). length t)" by simp
next
  fix c :: char and cs kwargs
  show "((cs, kwargs), c # cs, kwargs) \<in> measure (\<lambda>(t, _). length t)" by simp
qed

section \<open>Column configuration and distance semantics\<close>

text \<open>
  The dataclass \<^verbatim>\<open>TableColumn\<close>. Its fields are declared \<^verbatim>\<open>str\<close>, and
  \<^verbatim>\<open>__post_init__\<close> rejects \<^verbatim>\<open>None\<close> in \<^verbatim>\<open>name\<close> and in \<^verbatim>\<open>type\<close>,
  so the constructor takes optional strings and a constructed column holds strings.
\<close>

record TableColumn =
  name :: string
  type :: string
  is_null :: bool

definition TableColumn_init ::
  "string option \<Rightarrow> string option \<Rightarrow> bool \<Rightarrow> error + TableColumn" where
  "TableColumn_init n t nul =
     (case n of
        None \<Rightarrow> Inl (ValueError ''column_name is mandatory and cannot be None.'')
      | Some n' \<Rightarrow>
         (case t of
            None \<Rightarrow> Inl (ValueError ''type is mandatory and cannot be None.'')
          | Some t' \<Rightarrow> Inr \<lparr>name = n', type = t', is_null = nul\<rparr>))"

datatype DistanceStrategy = COSINE | EUCLIDEIAN

datatype DialectSemantics = GoogleSqlSemnatics | PGSqlSemnatics

fun getDistanceFunction :: "DialectSemantics \<Rightarrow> DistanceStrategy \<Rightarrow> string" where
  "getDistanceFunction GoogleSqlSemnatics distance_strategy =
     (if distance_strategy = COSINE then ''COSINE_DISTANCE'' else ''EUCLIDEAN_DISTANCE'')"
| "getDistanceFunction PGSqlSemnatics distance_strategy =
     (if distance_strategy = COSINE then ''spanner.cosine_distance''
      else ''spanner.euclidean_distance'')"

datatype NearestNeighborsAlgorithm = BRUTE_FORCE

record QueryParameters =
  algorithm :: NearestNeighborsAlgorithm
  distance_strategy :: DistanceStrategy
  staleness :: int

text \<open>
  \<^verbatim>\<open>DatabaseDialect\<close> is the enumeration of the Spanner client library; the code
  only ever compares a dialect with \<^verbatim>\<open>POSTGRESQL\<close>.
\<close>

datatype DatabaseDialect = DATABASE_DIALECT_UNSPECIFIED | GOOGLE_STANDARD_SQL | POSTGRESQL

section \<open>Table creation statement\<close>

text \<open>
  \<^verbatim>\<open>SpannerVectorStore._generate_sql\<close>. The loop over \<^verbatim>\<open>column_configs\<close> appends
  one line per column to \<^verbatim>\<open>sql\<close>; \<open>column_config_sql\<close> is the body of that loop.
\<close>

definition column_config_sql :: "TableColumn \<Rightarrow> string" where
  "column_config_sql column_config =
     (''  '' @ name column_config @ '' '' @ type column_config)
       @ (if \<not> is_null column_config then '' NOT NULL'' else [])
       @ '',\<newline>''"

definition generate_sql ::
  "DatabaseDialect \<Rightarrow> string \<Rightarrow> string \<Rightarrow> string \<Rightarrow> string
     \<Rightarrow> TableColumn list option \<Rightarrow> string" where
  "generate_sql dialect table_name id_column content_column embedding_column column_configs =
     (let sql0 = ''CREATE TABLE '' @ table_name @ '' (\<newline>'';
          sql1 =
            (if dialect = POSTGRESQL then
               sql0
                 @ (''  '' @ id_column @ '' varchar(36) DEFAULT (spanner.generate_uuid()),\<newline>'')
                 @ (''  '' @ content_column @ '' text,\<newline>'')
                 @ (''  '' @ embedding_column @ '' float8[],\<newline>'')
             else
               sql0
                 @ (''  '' @ id_column @ '' STRING(36) DEFAULT (GENERATE_UUID()),\<newline>'')
                 @ (''  '' @ content_column @ '' STRING(MAX),\<newline>'')
                 @ (''  '' @ embedding_column @ '' ARRAY<FLOAT64>,\<newline>''));
          sql2 =
            (case column_configs of
               None \<Rightarrow> sql1
             | Some ccs \<Rightarrow> fold (\<lambda>column_config sql. sql @ column_config_sql column_config) ccs sql1)
      in if dialect = POSTGRESQL then sql2 @ ''  PRIMARY KEY('' @ id_column @ '')\<newline>)''
         else rstrip sql2 '',\<newline>'' @ ''\<newline>) PRIMARY KEY('' @ id_column @ '')'')"

section \<open>The store and its collaborators\<close>

text \<open>
  The collaborators are outside the code under study. The embedding service is a pair
  of functions; the database client answers the questions the constructor asks
  (existence, dialect, schema) and answers a snapshot read with rows. Their effects
  that the code can cause are recorded in a \<open>world\<close>: the calls of the embedding
  service, the batch inserts and the statements run in a transaction, in the order
  of issue. The storage layer is taken to accept every operation it is sent.
\<close>

record Embeddings =
  embed_documents :: "string list \<Rightarrow> float64 list list"
  embed_query :: "string \<Rightarrow> float64 list"

datatype spanner_type = FLOAT64 | Array spanner_type

record sql_request =
  sql :: string
  params :: "float64 list pydict"
  param_types :: "spanner_type pydict"
  exact_staleness :: int

record Database =
  database_exists :: bool
  database_dialect :: DatabaseDialect
  table_exists :: "string \<Rightarrow> bool"
  table_schema :: "string \<Rightarrow> string list"
  snapshot_execute_sql :: "sql_request \<Rightarrow> pyval list list"

record Instance =
  instance_exists :: bool
  instance_database :: "string \<Rightarrow> Database"

record SpannerVectorStore =
  self_table_name :: string
  self_id_column :: string
  self_content_column :: string
  self_embedding_column :: string
  self_metadata_json_column :: "string option"
  self_query_parameters :: QueryParameters
  self_embedding_service :: Embeddings
  self_database :: Database
  self_dialect_semantics :: DialectSemantics
  self_metadata_columns :: "string list"
  self_columns_to_insert :: "string list"

text \<open>
  \<^verbatim>\<open>SpannerVectorStore.__init__\<close>. \<open>column_type_map\<close> is a dictionary keyed by
  the column names of the table's schema, in schema order.
\<close>

definition SpannerVectorStore_init ::
  "(string \<Rightarrow> Instance) \<Rightarrow> string \<Rightarrow> string \<Rightarrow> string \<Rightarrow> Embeddings
     \<Rightarrow> string \<Rightarrow> string \<Rightarrow> string
     \<Rightarrow> string list option \<Rightarrow> string list option \<Rightarrow> string option
     \<Rightarrow> QueryParameters \<Rightarrow> error + SpannerVectorStore" where
  "SpannerVectorStore_init client instance_id database_id tname embedding_service
     id_col content_col embedding_col metadata_cols ignore_metadata_cols metadata_json_col
     query_params =
     (let instance = client instance_id in
      if \<not> instance_exists instance then
        Inl (Exception (''Instance with id-'' @ instance_id @ '' doesn't exist.''))
      else
        let db = instance_database instance database_id;
            semantics =
              (if database_dialect db = POSTGRESQL then PGSqlSemnatics else GoogleSqlSemnatics)
        in
        if \<not> database_exists db then
          Inl (Exception (''Database with id-'' @ database_id @ '' doesn't exist.''))
        else if \<not> table_exists db tname then
          Inl (Exception (''Table with name-'' @ tname @ '' doesn't exist.''))
        else
          let column_type_map = fold (\<lambda>column d. dict_set d column column) (table_schema db tname) [];
              default_columns = [id_col, content_col, embedding_col];
              (columns_to_insert, metadata_columns) =
                (case ignore_metadata_cols of
                   Some ignored \<Rightarrow>
                     (let cti = filter (\<lambda>element. element \<notin> set ignored) (dict_keys column_type_map)
                      in (cti, filter (\<lambda>item. item \<notin> set default_columns) cti))
                 | None \<Rightarrow>
                     (let (cti, mc) =
                            (case metadata_cols of
                               Some given \<Rightarrow> (default_columns @ given, given)
                             | None \<Rightarrow> (default_columns, []))
                      in (case metadata_json_col of
                            Some j \<Rightarrow> if j \<notin> set cti then (cti @ [j], mc @ [j]) else (cti, mc)
                          | None \<Rightarrow> (cti, mc))))
          in Inr \<lparr>self_table_name = tname,
                  self_id_column = id_col,
                  self_content_column = content_col,
                  self_embedding_column = embedding_col,
                  self_metadata_json_column = metadata_json_col,
                  self_query_parameters = query_params,
                  self_embedding_service = embedding_service,
                  self_database = db,
                  self_dialect_semantics = semantics,
                  self_metadata_columns = metadata_columns,
                  self_columns_to_insert = columns_to_insert\<rparr>)"

section \<open>Similarity search\<close>

text \<open>
  \<^verbatim>\<open>similarity_search_with_score_by_vector\<close>, in three parts: the staleness, the
  statement and its parameters (source lines 560 to 603), the column order map
  (lines 575 and 576) and the conversion of one result row (lines 607 to 619). The
  function itself puts them together: the request goes to a snapshot of the
  database, and every row that comes back is converted.
\<close>

definition bind_err :: "error + 'a \<Rightarrow> ('a \<Rightarrow> error + 'b) \<Rightarrow> error + 'b" where
  "bind_err m f = (case m of Inl e \<Rightarrow> Inl e | Inr v \<Rightarrow> f v)"

definition DISTANCE_SELECT_QUERY_NAME :: string where
  "DISTANCE_SELECT_QUERY_NAME = ''distance''"

definition search_sql_template :: string where
  "search_sql_template =
     ''\<newline>            SELECT {select_column_names} {distance_function}({embedding_column}, {vector_embedding_placeholder}) AS {distance_alias}\<newline>            FROM {table_name} \<newline>            WHERE {filter}\<newline>            ORDER BY distance\<newline>            LIMIT {k_count};\<newline>        ''"

text \<open>
  \<^verbatim>\<open>datetime.timedelta(seconds=n)\<close> for an integer: the interval is kept as days
  and seconds of a day, and the constructor raises \<^verbatim>\<open>OverflowError\<close> when the
  number of days is beyond 999999999 in either direction. The interval is carried
  as its seconds.
\<close>

definition timedelta_seconds :: "int \<Rightarrow> error + int" where
  "timedelta_seconds n =
     (if - 999999999 \<le> n div 86400 \<and> n div 86400 \<le> 999999999 then Inr n
      else Inl OverflowError)"

definition search_request ::
  "SpannerVectorStore \<Rightarrow> float64 list \<Rightarrow> int \<Rightarrow> string option \<Rightarrow> error + sql_request" where
  "search_request s embedding k pre_filter =
     bind_err (timedelta_seconds (staleness (self_query_parameters s)))
       (\<lambda>staleness_interval.
          let distance_function =
                getDistanceFunction (self_dialect_semantics s)
                  (distance_strategy (self_query_parameters s));
              parameter =
                (if database_dialect (self_database s) = POSTGRESQL then (''$1'', ''p1'')
                 else (''@vector_embedding'', ''vector_embedding''));
              select_column_names = join '','' (self_columns_to_insert s) @ '',''
          in bind_err
               (str_format search_sql_template
                  [(''table_name'', self_table_name s),
                   (''embedding_column'', self_embedding_column s),
                   (''select_column_names'', select_column_names),
                   (''vector_embedding_placeholder'', fst parameter),
                   (''filter'', (case pre_filter of Some f \<Rightarrow> f | None \<Rightarrow> ''1 = 1'')),
                   (''k_count'', str_int k),
                   (''distance_function'', distance_function),
                   (''distance_alias'', DISTANCE_SELECT_QUERY_NAME)])
               (\<lambda>sql_query.
                  Inr \<lparr>sql = sql_query,
                       params = [(snd parameter, embedding)],
                       param_types = [(snd parameter, Array FLOAT64)],
                       exact_staleness = staleness_interval\<rparr>))"

definition enumerate :: "'a list \<Rightarrow> (nat \<times> 'a) list" where
  "enumerate xs = zip [0..<length xs] xs"

definition column_order_map :: "SpannerVectorStore \<Rightarrow> nat pydict" where
  "column_order_map s =
     dict_set
       (fold (\<lambda>(index, v) d. dict_set d v index) (enumerate (self_columns_to_insert s)) [])
       DISTANCE_SELECT_QUERY_NAME (length (self_columns_to_insert s))"

text \<open>\<^verbatim>\<open>row[column_order_map[key]]\<close>: a missing key raises \<^verbatim>\<open>KeyError\<close>.\<close>

definition dict_lookup :: "'v pydict \<Rightarrow> string \<Rightarrow> error + 'v" where
  "dict_lookup d k = (case dict_get d k of None \<Rightarrow> Inl KeyError | Some v \<Rightarrow> Inr v)"

definition row_cell :: "nat pydict \<Rightarrow> pyval list \<Rightarrow> string \<Rightarrow> error + pyval" where
  "row_cell order_map row key = bind_err (dict_lookup order_map key) (py_index row)"

record Document =
  page_content :: pyval
  metadata :: pyval

text \<open>The dictionary comprehension over \<^verbatim>\<open>self._metadata_columns\<close>.\<close>

fun metadata_from_columns ::
  "nat pydict \<Rightarrow> pyval list \<Rightarrow> string list \<Rightarrow> pyval pydict \<Rightarrow> error + pyval pydict" where
  "metadata_from_columns order_map row [] acc = Inr acc"
| "metadata_from_columns order_map row (key # keys) acc =
     bind_err (row_cell order_map row key)
       (\<lambda>v. metadata_from_columns order_map row keys
               (if v \<noteq> PyNone then dict_set acc key v else acc))"

definition row_to_document ::
  "SpannerVectorStore \<Rightarrow> pyval list \<Rightarrow> error + (Document \<times> pyval)" where
  "row_to_document s row =
     (let order_map = column_order_map s in
      bind_err (row_cell order_map row (self_content_column s))
        (\<lambda>content.
           bind_err
             (case self_metadata_json_column s of
                None \<Rightarrow> Inr None
              | Some j \<Rightarrow>
                  bind_err (row_cell order_map row j)
                    (\<lambda>v. Inr (if truthy v then Some v else None)))
             (\<lambda>from_json.
                bind_err
                  (case from_json of
                     Some v \<Rightarrow> Inr v
                   | None \<Rightarrow>
                       bind_err
                         (metadata_from_columns order_map row (self_metadata_columns s) [])
                         (\<lambda>d. Inr (PyDict d)))
                  (\<lambda>md.
                     bind_err (row_cell order_map row DISTANCE_SELECT_QUERY_NAME)
                       (\<lambda>distance.
                          Inr (\<lparr>page_content = content, metadata = md\<rparr>, distance))))))"

definition similarity_search_with_score_by_vector ::
  "SpannerVectorStore \<Rightarrow> float64 list \<Rightarrow> int \<Rightarrow> string option
     \<Rightarrow> error + (Document \<times> pyval) list" where
  "similarity_search_with_score_by_vector s embedding k pre_filter =
     bind_err (search_request s embedding k pre_filter)
       (\<lambda>request.
          sequence_err (map (row_to_document s) (snapshot_execute_sql (self_database s) request)))"

section \<open>Ingestion\<close>

text \<open>
  A batch insert as \<^verbatim>\<open>_insert_data\<close> sends it, and the world of effects. The
  metadata dictionaries a caller passes are objects that \<^verbatim>\<open>add_texts\<close> writes to,
  so they live in a heap and the caller passes their addresses; two entries of
  \<^verbatim>\<open>metadatas\<close> may be the same object.
\<close>

record insert_op =
  insert_table :: string
  insert_columns :: "string list"
  insert_values :: "pyval list list"

type_synonym addr = nat

record world =
  heap :: "addr \<Rightarrow> pyval pydict"
  embed_log :: "string list list"
  insert_log :: "insert_op list"
  dml_log :: "string list"

definition insert_data ::
  "SpannerVectorStore \<Rightarrow> pyval list list \<Rightarrow> string list \<Rightarrow> world \<Rightarrow> world" where
  "insert_data s records columns_to_insert w =
     w\<lparr>insert_log := insert_log w @
          [\<lparr>insert_table = self_table_name s,
            insert_columns = columns_to_insert,
            insert_values = records\<rparr>]\<rparr>"

text \<open>
  \<^verbatim>\<open>values_dict[column_name].append(x)\<close>; every key used here was put into
  \<^verbatim>\<open>values_dict\<close> when it was created from the same column list.
\<close>

definition dict_append :: "'a list pydict \<Rightarrow> string \<Rightarrow> 'a \<Rightarrow> 'a list pydict" where
  "dict_append d k x = map (\<lambda>(k', l). if k' = k then (k', l @ [x]) else (k', l)) d"

text \<open>The body of the loop over \<^verbatim>\<open>metadatas\<close> (source lines 426 to 433).\<close>

definition set_json_column :: "SpannerVectorStore \<Rightarrow> pyval pydict \<Rightarrow> pyval pydict" where
  "set_json_column s row_metadata =
     (case self_metadata_json_column s of
        Some j \<Rightarrow> dict_set row_metadata j (JsonObject row_metadata)
      | None \<Rightarrow> row_metadata)"

definition column_value :: "pyval pydict \<Rightarrow> string \<Rightarrow> pyval" where
  "column_value row_metadata column_name =
     (case dict_get row_metadata column_name of
        Some v \<Rightarrow> if v \<noteq> PyNone then v else PyNone
      | None \<Rightarrow> PyNone)"

definition append_column_values ::
  "SpannerVectorStore \<Rightarrow> pyval pydict \<Rightarrow> pyval list pydict \<Rightarrow> pyval list pydict" where
  "append_column_values s row_metadata values_dict =
     fold (\<lambda>column_name vd. dict_append vd column_name (column_value row_metadata column_name))
       (self_metadata_columns s) values_dict"

text \<open>
  The loop itself. An entry \<open>Some a\<close> is the caller's dictionary at address \<open>a\<close>,
  read from the heap when its turn comes and written back; \<open>None\<close> is one of the
  fresh empty dictionaries made when \<^verbatim>\<open>metadatas\<close> is not given.
\<close>

fun metadata_loop ::
  "SpannerVectorStore \<Rightarrow> addr option list \<Rightarrow> pyval list pydict \<Rightarrow> (addr \<Rightarrow> pyval pydict)
     \<Rightarrow> pyval list pydict \<times> (addr \<Rightarrow> pyval pydict)" where
  "metadata_loop s [] values_dict h = (values_dict, h)"
| "metadata_loop s (r # rs) values_dict h =
     (let row_metadata = set_json_column s (case r of Some a \<Rightarrow> h a | None \<Rightarrow> [])
      in metadata_loop s rs (append_column_values s row_metadata values_dict)
           (case r of Some a \<Rightarrow> h(a := row_metadata) | None \<Rightarrow> h))"

text \<open>
  After the loop \<^verbatim>\<open>values_dict\<close> also gets the ids, the object \<^verbatim>\<open>texts\<close> itself
  and the embeddings. Every value of it is then either a list or the object
  \<^verbatim>\<open>texts\<close> when that is not a list; \<^verbatim>\<open>values_dict[key][i]\<close> raises
  \<^verbatim>\<open>TypeError\<close> on an object without indexing.
\<close>

datatype column_values = ValueList "pyval list" | NotSubscriptable

fun texts_values :: "string iterable \<Rightarrow> column_values" where
  "texts_values (PySequence xs) = ValueList (map PyStr xs)"
| "texts_values (PyCollection xs) = NotSubscriptable"
| "texts_values (PyGenerator xs) = NotSubscriptable"

definition py_getitem :: "column_values \<Rightarrow> nat \<Rightarrow> error + pyval" where
  "py_getitem v i = (case v of ValueList l \<Rightarrow> py_index l i | NotSubscriptable \<Rightarrow> Inl TypeError)"

text \<open>\<^verbatim>\<open>rows_to_insert\<close>: row \<open>i\<close> takes entry \<open>i\<close> of every value of \<^verbatim>\<open>values_dict\<close>.\<close>

definition build_row :: "column_values pydict \<Rightarrow> nat \<Rightarrow> error + pyval list" where
  "build_row values_dict i = sequence_err (map (\<lambda>(key, v). py_getitem v i) values_dict)"

definition rows_to_insert :: "column_values pydict \<Rightarrow> nat \<Rightarrow> error + pyval list list" where
  "rows_to_insert values_dict number_of_records =
     sequence_err (map (build_row values_dict) [0..<number_of_records])"

text \<open>
  The loop \<^verbatim>\<open>for i in range(0, len(rows_to_insert), batch_size)\<close> for a positive
  step; \<^verbatim>\<open>add_texts\<close> below deals with a step that is zero or negative.
\<close>

function insert_batches ::
  "SpannerVectorStore \<Rightarrow> string list \<Rightarrow> pyval list list \<Rightarrow> nat \<Rightarrow> nat \<Rightarrow> world \<Rightarrow> world" where
  "insert_batches s columns_to_insert rows batch_size i w =
     (if 0 < batch_size \<and> i < length rows then
        insert_batches s columns_to_insert rows batch_size (i + batch_size)
          (insert_data s (take batch_size (drop i rows)) columns_to_insert w)
      else w)"
  by pat_completeness auto
termination
  by (relation "measure (\<lambda>(s, c, rows, b, i, w). length rows - i)") auto

declare insert_batches.simps [simp del]

text \<open>
  The values that \<^verbatim>\<open>add_texts\<close> collects per column (source lines 422 to 439),
  and \<^verbatim>\<open>add_texts\<close>. The source copies \<^verbatim>\<open>texts\<close> with \<^verbatim>\<open>list(texts)\<close> and
  uses the copy for the count and for the embeddings, but goes back to \<^verbatim>\<open>texts\<close>
  itself to make the empty metadata dictionaries (line 420) and for the values of
  the content column (line 438).
\<close>

definition embedding_value :: "float64 list \<Rightarrow> pyval" where
  "embedding_value e = PyList (map PyFloat e)"

definition collect_values ::
  "SpannerVectorStore \<Rightarrow> string iterable \<Rightarrow> addr option list \<Rightarrow> string list option
     \<Rightarrow> float64 list list \<Rightarrow> (addr \<Rightarrow> pyval pydict)
     \<Rightarrow> column_values pydict \<times> (addr \<Rightarrow> pyval pydict)" where
  "collect_values s texts metadatas ids embeds h =
     (let values_dict0 = fold (\<lambda>key d. dict_set d key []) (self_metadata_columns s) [];
          (values_dict1, h') =
            (if metadatas \<noteq> [] then metadata_loop s metadatas values_dict0 h
             else (values_dict0, h));
          values_dict1' = map (\<lambda>(key, l). (key, ValueList l)) values_dict1;
          values_dict2 =
            (case ids of
               Some given \<Rightarrow> dict_set values_dict1' (self_id_column s) (ValueList (map PyStr given))
             | None \<Rightarrow> values_dict1');
          values_dict3 = dict_set values_dict2 (self_content_column s) (texts_values texts);
          values_dict4 =
            dict_set values_dict3 (self_embedding_column s) (ValueList (map embedding_value embeds))
      in (values_dict4, h'))"

definition add_texts ::
  "SpannerVectorStore \<Rightarrow> string iterable \<Rightarrow> addr list option \<Rightarrow> string list option \<Rightarrow> int
     \<Rightarrow> world \<Rightarrow> (error + string list) \<times> world" where
  "add_texts s texts metadatas ids batch_size w =
     (let texts_list = py_list texts;
          number_of_records = length texts_list
      in
      if number_of_records = 0 then (Inr [], w)
      else if (case ids of Some given \<Rightarrow> length given \<noteq> number_of_records | None \<Rightarrow> False)
        then (Inl AssertionError, w)
      else if (case metadatas of Some given \<Rightarrow> length given \<noteq> number_of_records | None \<Rightarrow> False)
        then (Inl AssertionError, w)
      else
        let embeds = embed_documents (self_embedding_service s) texts_list;
            w1 = w\<lparr>embed_log := embed_log w @ [texts_list]\<rparr>;
            metadatas' =
              (case metadatas of
                 None \<Rightarrow> map (\<lambda>_. None) (traverse_again texts)
               | Some given \<Rightarrow> map Some given);
            (values_dict, h') = collect_values s texts metadatas' ids embeds (heap w1);
            w2 = w1\<lparr>heap := h'\<rparr>;
            columns_to_insert = dict_keys values_dict
        in
        (case rows_to_insert values_dict number_of_records of
           Inl e \<Rightarrow> (Inl e, w2)
         | Inr rows \<Rightarrow>
             if batch_size = 0 then (Inl (ValueError ''range() arg 3 must not be zero''), w2)
             else
               (Inr (case ids of Some given \<Rightarrow> given | None \<Rightarrow> []),
                if batch_size < 0 then w2
                else insert_batches s columns_to_insert rows (nat batch_size) 0 w2)))"

section \<open>Deletion\<close>

definition delete_sql_template :: string where
  "delete_sql_template =
     ''\<newline>                DELETE FROM {table_name} \<newline>                WHERE {column_expression} IN {struct_placeholder}\<newline>                ''"

text \<open>
  \<^verbatim>\<open>delete\<close>. The branch for \<^verbatim>\<open>documents\<close> is \<^verbatim>\<open>pass\<close> in the source, so
  \<^verbatim>\<open>columns\<close> and \<^verbatim>\<open>values\<close> keep their initial empty lists there, and the
  statement is built and run in a transaction on every path that passes the first
  check.
\<close>

definition delete ::
  "SpannerVectorStore \<Rightarrow> string list option \<Rightarrow> Document list option \<Rightarrow> world
     \<Rightarrow> (error + bool) \<times> world" where
  "delete s ids documents w =
     (if ids = None \<and> documents = None then (Inl (Exception ''Pass id/documents to delete''), w)
      else
        let (columns, vals) =
              (case ids of
                 Some given \<Rightarrow>
                   ([self_id_column s],
                    map (\<lambda>v. [CHR ''('', CHR 0x27] @ v @ [CHR 0x27, CHR '')'']) given)
               | None \<Rightarrow> ([], []));
            column_expression = ''('' @ join '', '' columns @ '')''
        in
        (case str_format delete_sql_template
                [(''table_name'', self_table_name s),
                 (''column_expression'', column_expression),
                 (''struct_placeholder'', join '', '' (map (\<lambda>elem. ''('' @ elem @ '')'') vals))] of
           Inl e \<Rightarrow> (Inl e, w)
         | Inr sql_query \<Rightarrow> (Inr True, w\<lparr>dml_log := dml_log w @ [sql_query]\<rparr>)))"

section \<open>Notions of the specification\<close>

text \<open>
  The declaration of one extra column and the list of declarations of a table, in
  the words of the specification: \<open><name> <sqlType>\<close>, followed by \<open>NOT NULL\<close>
  when the column is not nullable; id, content, embedding and then the extra columns
  in the order given.
\<close>

definition spec_column_decl :: "TableColumn \<Rightarrow> string" where
  "spec_column_decl c = name c @ '' '' @ type c @ (if is_null c then [] else '' NOT NULL'')"

definition spec_declarations ::
  "DatabaseDialect \<Rightarrow> string \<Rightarrow> string \<Rightarrow> string \<Rightarrow> TableColumn list option \<Rightarrow> string list" where
  "spec_declarations dialect id_column content_column embedding_column column_configs =
     (if dialect = POSTGRESQL then
        [id_column @ '' varchar(36) DEFAULT (spanner.generate_uuid())'',
         content_column @ '' text'',
         embedding_column @ '' float8[]'']
      else
        [id_column @ '' STRING(36) DEFAULT (GENERATE_UUID())'',
         content_column @ '' STRING(MAX)'',
         embedding_column @ '' ARRAY<FLOAT64>''])
     @ map spec_column_decl (case column_configs of None \<Rightarrow> [] | Some ccs \<Rightarrow> ccs)"

text \<open>
  Trimming removes every trailing comma and newline, so it removes exactly the last
  separator when the text before that separator does not itself end in one of the
  two characters. Only the type of a last, nullable extra column can make it do so.
\<close>

definition spec_type_keeps_separator :: "TableColumn list option \<Rightarrow> bool" where
  "spec_type_keeps_separator column_configs =
     (case column_configs of
        None \<Rightarrow> True
      | Some ccs \<Rightarrow>
          ccs = [] \<or> \<not> is_null (last ccs) \<or> type (last ccs) = []
          \<or> last (type (last ccs)) \<notin> set '',\<newline>'')"



text \<open>
  Ingestion, in the words of the specification. The row set is partitioned into
  consecutive chunks of at most \<open>b\<close> rows.
\<close>

function spec_chunks :: "nat \<Rightarrow> 'a list \<Rightarrow> 'a list list" where
  "spec_chunks b xs = (if 0 < b \<and> xs \<noteq> [] then take b xs # spec_chunks b (drop b xs) else [])"
  by pat_completeness auto
termination
  by (relation "measure (\<lambda>(b, xs). length xs)") auto

declare spec_chunks.simps [simp del]

text \<open>
  The metadata dictionaries, in the words of the claims. With a JSON column \<open>j\<close>
  a dictionary gets the key \<open>j\<close>, bound to a \<^verbatim>\<open>JsonObject\<close> that copies the items
  it had until then. \<open>spec_row_metadatas\<close> are the dictionaries of the rows one
  after the other, each as it is when its turn is over; \<open>spec_heap_after\<close> is the
  heap once every dictionary of the caller has had its turn, in the order of the
  list; \<open>spec_metadata_value\<close> is the value of a column in a dictionary, null when
  the dictionary has no such key.
\<close>

definition spec_set_json :: "string option \<Rightarrow> pyval pydict \<Rightarrow> pyval pydict" where
  "spec_set_json json d = (case json of Some j \<Rightarrow> dict_set d j (JsonObject d) | None \<Rightarrow> d)"

fun spec_row_metadatas ::
  "string option \<Rightarrow> addr option list \<Rightarrow> (addr \<Rightarrow> pyval pydict) \<Rightarrow> pyval pydict list" where
  "spec_row_metadatas json [] h = []"
| "spec_row_metadatas json (r # rs) h =
     spec_set_json json (case r of Some a \<Rightarrow> h a | None \<Rightarrow> [])
       # spec_row_metadatas json rs
           (case r of
              Some a \<Rightarrow> h(a := spec_set_json json (h a))
            | None \<Rightarrow> h)"

definition spec_heap_after ::
  "string \<Rightarrow> addr list \<Rightarrow> (addr \<Rightarrow> pyval pydict) \<Rightarrow> (addr \<Rightarrow> pyval pydict)" where
  "spec_heap_after j given h = fold (\<lambda>a h. h(a := dict_set (h a) j (JsonObject (h a)))) given h"

definition spec_metadata_value :: "pyval pydict \<Rightarrow> string \<Rightarrow> pyval" where
  "spec_metadata_value d k = (case dict_get d k of Some v \<Rightarrow> v | None \<Rightarrow> PyNone)"

text \<open>
  The column list of an insert: the metadata columns of the store, the id column
  when ids are given, the content column and the embedding column, a name that
  occurs again keeping its first place.
\<close>

definition spec_insert_columns :: "SpannerVectorStore \<Rightarrow> string list option \<Rightarrow> string list" where
  "spec_insert_columns s ids =
     fold (\<lambda>k acc. if k \<in> set acc then acc else acc @ [k])
       (self_metadata_columns s
          @ (case ids of Some given \<Rightarrow> [self_id_column s] | None \<Rightarrow> [])
          @ [self_content_column s, self_embedding_column s])
       []"

text \<open>
  The metadata dictionaries a call works on, as references: those of the caller, or
  one fresh dictionary for every element that a second traversal of \<^verbatim>\<open>texts\<close>
  yields. The values a call collects for a column name: the embeddings under the
  embedding column; else the object \<^verbatim>\<open>texts\<close> under the content column; else the
  ids, when given, under the id column; else under a metadata column its value in the
  dictionary of every row, once for every time the column is listed.
\<close>

definition spec_metadata_refs :: "string iterable \<Rightarrow> addr list option \<Rightarrow> addr option list" where
  "spec_metadata_refs texts metadatas =
     (case metadatas of
        None \<Rightarrow> map (\<lambda>_. None) (traverse_again texts)
      | Some given \<Rightarrow> map Some given)"

definition spec_collected ::
  "SpannerVectorStore \<Rightarrow> string iterable \<Rightarrow> addr list option \<Rightarrow> string list option
     \<Rightarrow> (addr \<Rightarrow> pyval pydict) \<Rightarrow> string \<Rightarrow> column_values option" where
  "spec_collected s texts metadatas ids h k =
     (if k = self_embedding_column s then
        Some (ValueList (map embedding_value
                (embed_documents (self_embedding_service s) (py_list texts))))
      else if k = self_content_column s then Some (texts_values texts)
      else if ids \<noteq> None \<and> k = self_id_column s then Some (ValueList (map PyStr (the ids)))
      else if k \<in> set (self_metadata_columns s) then
        Some (ValueList
                (concat
                   (map (\<lambda>d. replicate (count_list (self_metadata_columns s) k)
                                (spec_metadata_value d k))
                      (spec_row_metadatas (self_metadata_json_column s)
                         (spec_metadata_refs texts metadatas) h))))
      else None)"

text \<open>
  The rows of a list of inserts, each as the association of its columns with its
  values: this is how the storage layer pairs a column list with a value list. The
  inserts that a call adds to the log, and the insert for a list of records.
\<close>

definition spec_row_cells :: "insert_op list \<Rightarrow> (string \<times> pyval) list list" where
  "spec_row_cells ops =
     concat (map (\<lambda>op. map (zip (insert_columns op)) (insert_values op)) ops)"

definition spec_new_inserts :: "world \<Rightarrow> world \<Rightarrow> insert_op list" where
  "spec_new_inserts w w' = drop (length (insert_log w)) (insert_log w')"

definition spec_insert_op :: "SpannerVectorStore \<Rightarrow> string list \<Rightarrow> pyval list list \<Rightarrow> insert_op" where
  "spec_insert_op s columns records =
     \<lparr>insert_table = self_table_name s, insert_columns = columns, insert_values = records\<rparr>"

text \<open>
  A call with the texts \<open>ts\<close> is valid when there is a text, the lists of ids and
  of metadata that are given have one entry per text, and the embedding service
  answers with at least one vector per text.
\<close>

definition spec_valid_call ::
  "SpannerVectorStore \<Rightarrow> string list \<Rightarrow> addr list option \<Rightarrow> string list option \<Rightarrow> bool" where
  "spec_valid_call s ts metadatas ids =
     (ts \<noteq> []
      \<and> (case ids of Some given \<Rightarrow> length given = length ts | None \<Rightarrow> True)
      \<and> (case metadatas of Some given \<Rightarrow> length given = length ts | None \<Rightarrow> True)
      \<and> length ts \<le> length (embed_documents (self_embedding_service s) ts))"

text \<open>
  The \<^verbatim>\<open>values_dict\<close> of a call and the rows read off it; the rows a call sends
  to the storage layer, which are all the rows when the call passes its checks, the
  rows can be built and the batch size is positive, and none otherwise.
\<close>

fun value_list :: "column_values \<Rightarrow> pyval list" where
  "value_list (ValueList l) = l"
| "value_list NotSubscriptable = []"

definition spec_rows :: "column_values pydict \<Rightarrow> nat \<Rightarrow> pyval list list" where
  "spec_rows values_dict n = map (\<lambda>i. map (\<lambda>(key, v). value_list v ! i) values_dict) [0..<n]"

definition spec_values_dict ::
  "SpannerVectorStore \<Rightarrow> string iterable \<Rightarrow> addr list option \<Rightarrow> string list option
     \<Rightarrow> (addr \<Rightarrow> pyval pydict) \<Rightarrow> column_values pydict" where
  "spec_values_dict s texts metadatas ids h =
     fst (collect_values s texts (spec_metadata_refs texts metadatas) ids
            (embed_documents (self_embedding_service s) (py_list texts)) h)"

definition spec_issued_rows ::
  "SpannerVectorStore \<Rightarrow> string iterable \<Rightarrow> addr list option \<Rightarrow> string list option \<Rightarrow> int
     \<Rightarrow> (addr \<Rightarrow> pyval pydict) \<Rightarrow> pyval list list" where
  "spec_issued_rows s texts metadatas ids batch_size h =
     (if py_list texts = []
         \<or> (case ids of Some given \<Rightarrow> length given \<noteq> length (py_list texts) | None \<Rightarrow> False)
         \<or> (case metadatas of Some given \<Rightarrow> length given \<noteq> length (py_list texts) | None \<Rightarrow> False)
         \<or> batch_size \<le> 0
      then []
      else (case rows_to_insert (spec_values_dict s texts metadatas ids h) (length (py_list texts)) of
              Inr rows \<Rightarrow> rows
            | Inl e \<Rightarrow> []))"

text \<open>
  The position at which a name occurs last in a list, counted from zero.
\<close>

fun spec_last_index :: "string list \<Rightarrow> string \<Rightarrow> nat option" where
  "spec_last_index [] k = None"
| "spec_last_index (x # xs) k =
     (case spec_last_index xs k of
        Some i \<Rightarrow> Some (Suc i)
      | None \<Rightarrow> if x = k then Some 0 else None)"

section \<open>A concrete store\<close>

text \<open>
  A table \<open>docs\<close> with one metadata column and a JSON column, its database and a
  store opened on it; the concrete instances of the theorems below are taken there.
\<close>

definition demo_columns :: "TableColumn list" where
  "demo_columns =
     [\<lparr>name = ''source'', type = ''STRING(MAX)'', is_null = False\<rparr>,
      \<lparr>name = ''metadata'', type = ''JSON'', is_null = True\<rparr>]"

definition demo_row :: "pyval list" where
  "demo_row =
     [PyStr ''k1'', PyStr ''hello'', PyList [PyFloat 0], PyStr ''web'',
      JsonObject [(''lang'', PyStr ''en'')], PyFloat 0]"

definition demo_database :: Database where
  "demo_database =
     \<lparr>database_exists = True,
      database_dialect = GOOGLE_STANDARD_SQL,
      table_exists = (\<lambda>t. t = ''docs''),
      table_schema = (\<lambda>t. [''id'', ''content'', ''embedding'', ''source'', ''metadata'']),
      snapshot_execute_sql = (\<lambda>request. [demo_row])\<rparr>"

definition demo_client :: "string \<Rightarrow> Instance" where
  "demo_client instance_id =
     \<lparr>instance_exists = True, instance_database = (\<lambda>database_id. demo_database)\<rparr>"

definition demo_embeddings :: Embeddings where
  "demo_embeddings =
     \<lparr>embed_documents = map (\<lambda>t. [of_nat (length t)]), embed_query = (\<lambda>t. [of_nat (length t)])\<rparr>"

definition demo_query_parameters :: QueryParameters where
  "demo_query_parameters =
     \<lparr>algorithm = BRUTE_FORCE, distance_strategy = EUCLIDEIAN, staleness = 0\<rparr>"

definition demo_store :: SpannerVectorStore where
  "demo_store =
     \<lparr>self_table_name = ''docs'',
      self_id_column = ''id'',
      self_content_column = ''content'',
      self_embedding_column = ''embedding'',
      self_metadata_json_column = Some ''metadata'',
      self_query_parameters = demo_query_parameters,
      self_embedding_service = demo_embeddings,
      self_database = demo_database,
      self_dialect_semantics = GoogleSqlSemnatics,
      self_metadata_columns = [''source'', ''metadata''],
      self_columns_to_insert = [''id'', ''content'', ''embedding'', ''source'', ''metadata'']\<rparr>"

definition demo_world :: world where
  "demo_world =
     \<lparr>heap = (\<lambda>a. if a = 0 then [(''source'', PyStr ''web'')]
                   else if a = 1 then [(''lang'', PyStr ''en'')] else []),
      embed_log = [],
      insert_log = [],
      dml_log = []\<rparr>"


definition demo_document :: Document where
  "demo_document =
     \<lparr>page_content = PyStr ''hello'', metadata = PyDict [(''source'', PyStr ''web'')]\<rparr>"

section \<open>The table creation statement\<close>

lemma fold_append_lines: "fold (\<lambda>c sql. sql @ f c) ccs sql0 = sql0 @ concat (map f ccs)"
  by (induction ccs arbitrary: sql0) auto

lemma column_config_sql_decl: "column_config_sql c = ''  '' @ spec_column_decl c @ '',\<newline>''"
  by (simp add: column_config_sql_def spec_column_decl_def)

lemma rstrip_separator:
  assumes "xs \<noteq> []" and "last xs \<notin> set chars" and "set ys \<subseteq> set chars"
  shows "rstrip (xs @ ys) chars = xs"
proof -
  have "dropWhile (\<lambda>c. c \<in> set chars) (rev ys @ rev xs) = dropWhile (\<lambda>c. c \<in> set chars) (rev xs)"
    using assms(3) by (intro dropWhile_append2) auto
  moreover have "dropWhile (\<lambda>c. c \<in> set chars) (rev xs) = rev xs"
    using assms(1,2) by (cases "rev xs") (auto simp: last_rev hd_rev dest: arg_cong[where f=hd])
  ultimately show ?thesis by (simp add: rstrip_def)
qed

lemma concat_lines_join:
  "ls \<noteq> [] \<Longrightarrow> concat (map (\<lambda>l. ''  '' @ l @ sep) ls) = join sep (map (\<lambda>l. ''  '' @ l) ls) @ sep"
  by (induction sep ls rule: join.induct) auto

lemma join_lines_last:
  "ls \<noteq> [] \<Longrightarrow> join sep (map (\<lambda>d. ''  '' @ d) ls) \<noteq> []
     \<and> last (join sep (map (\<lambda>d. ''  '' @ d) ls)) = last (''  '' @ last ls)"
  by (induction sep ls rule: join.induct) auto

text \<open>
  Claim C4, as amended. The statement made by \<^verbatim>\<open>_generate_sql\<close> declares id,
  content and embedding with the types of the dialect and then the extra columns in
  the order given, each as \<open><name> <sqlType>\<close> with \<open>NOT NULL\<close> exactly when it
  is not nullable, one declaration per line. For POSTGRESQL every declaration is
  followed by the separator and the primary key is a last line inside the
  parentheses. For any other dialect, and provided the type of the last extra column
  does not end in a comma or a newline when that column is nullable, the
  declarations are joined by the separator, none after the last, and the primary key
  follows the closing parenthesis.
\<close>

theorem create_table_statement:
  "(dialect = POSTGRESQL \<longrightarrow>
      generate_sql dialect table_name id_column content_column embedding_column column_configs =
        ''CREATE TABLE '' @ table_name @ '' (\<newline>''
          @ concat
              (map (\<lambda>d. ''  '' @ d @ '',\<newline>'')
                 (spec_declarations dialect id_column content_column embedding_column column_configs))
          @ ''  PRIMARY KEY('' @ id_column @ '')\<newline>)'')
   \<and> (dialect \<noteq> POSTGRESQL \<and> spec_type_keeps_separator column_configs \<longrightarrow>
        generate_sql dialect table_name id_column content_column embedding_column column_configs =
          ''CREATE TABLE '' @ table_name @ '' (\<newline>''
            @ join '',\<newline>''
                (map (\<lambda>d. ''  '' @ d)
                   (spec_declarations dialect id_column content_column embedding_column column_configs))
            @ ''\<newline>) PRIMARY KEY('' @ id_column @ '')'')"
proof (intro conjI impI)
  let ?decls = "spec_declarations dialect id_column content_column embedding_column column_configs"
  let ?head = "''CREATE TABLE '' @ table_name @ '' (\<newline>''"
  let ?body = "concat (map (\<lambda>d. ''  '' @ d @ '',\<newline>'') ?decls)"
  have general:
    "generate_sql dialect table_name id_column content_column embedding_column column_configs =
       (if dialect = POSTGRESQL then ?head @ ?body @ ''  PRIMARY KEY('' @ id_column @ '')\<newline>)''
        else rstrip (?head @ ?body) '',\<newline>'' @ ''\<newline>) PRIMARY KEY('' @ id_column @ '')'')"
    by (cases column_configs)
       (simp_all add: generate_sql_def spec_declarations_def fold_append_lines
          column_config_sql_decl Let_def comp_def)
  show "generate_sql dialect table_name id_column content_column embedding_column column_configs =
      ''CREATE TABLE '' @ table_name @ '' (\<newline>'' @ ?body
        @ ''  PRIMARY KEY('' @ id_column @ '')\<newline>)''"
    if "dialect = POSTGRESQL"
    using general that by simp
  assume side: "dialect \<noteq> POSTGRESQL \<and> spec_type_keeps_separator column_configs"
  have nonempty: "?decls \<noteq> []" by (simp add: spec_declarations_def)
  let ?joined = "join '',\<newline>'' (map (\<lambda>d. ''  '' @ d) ?decls)"
  have body: "?body = ?joined @ '',\<newline>''"
    using nonempty by (rule concat_lines_join)
  have last_decl: "last ?decls \<noteq> [] \<and> last (last ?decls) \<notin> set '',\<newline>''"
  proof (cases "column_configs = None \<or> column_configs = Some []")
    case True
    then show ?thesis using side by (auto simp: spec_declarations_def)
  next
    case False
    then obtain ccs where ccs: "column_configs = Some ccs" "ccs \<noteq> []"
      by (cases column_configs) auto
    then have "last ?decls = spec_column_decl (last ccs)"
      by (simp add: spec_declarations_def last_map)
    moreover have "\<not> is_null (last ccs) \<or> type (last ccs) = []
        \<or> last (type (last ccs)) \<notin> set '',\<newline>''"
      using side ccs by (simp add: spec_type_keeps_separator_def)
    ultimately show ?thesis by (auto simp: spec_column_decl_def)
  qed
  have "?head @ ?joined \<noteq> [] \<and> last (?head @ ?joined) \<notin> set '',\<newline>''"
    using join_lines_last[OF nonempty, of "'',\<newline>''"] last_decl by auto
  then have "rstrip ((?head @ ?joined) @ '',\<newline>'') '',\<newline>'' = ?head @ ?joined"
    by (intro rstrip_separator) auto
  then show "generate_sql dialect table_name id_column content_column embedding_column column_configs =
      ''CREATE TABLE '' @ table_name @ '' (\<newline>'' @ ?joined
        @ ''\<newline>) PRIMARY KEY('' @ id_column @ '')''"
    using general side body by simp
qed

theorem create_table_statement_witness:
  "GOOGLE_STANDARD_SQL \<noteq> POSTGRESQL \<and> spec_type_keeps_separator (Some demo_columns)
   \<and> generate_sql GOOGLE_STANDARD_SQL ''docs'' ''id'' ''content'' ''embedding'' (Some demo_columns) =
       ''CREATE TABLE docs (\<newline>  id STRING(36) DEFAULT (GENERATE_UUID()),\<newline>  content STRING(MAX),\<newline>  embedding ARRAY<FLOAT64>,\<newline>  source STRING(MAX) NOT NULL,\<newline>  metadata JSON\<newline>) PRIMARY KEY(id)''
   \<and> generate_sql POSTGRESQL ''docs'' ''id'' ''content'' ''embedding'' None =
       ''CREATE TABLE docs (\<newline>  id varchar(36) DEFAULT (spanner.generate_uuid()),\<newline>  content text,\<newline>  embedding float8[],\<newline>  PRIMARY KEY(id)\<newline>)''"
  using create_table_statement
          [of GOOGLE_STANDARD_SQL "''docs''" "''id''" "''content''" "''embedding''" "Some demo_columns",
           THEN conjunct2]
        create_table_statement
          [of POSTGRESQL "''docs''" "''id''" "''content''" "''embedding''" None, THEN conjunct1]
  by (simp add: spec_type_keeps_separator_def spec_declarations_def spec_column_decl_def
        demo_columns_def)

text \<open>
  Without the proviso the claim fails: the trimming takes every trailing comma and
  newline, so a last nullable column of type \<open>JSON,\<close> is declared as \<open>b JSON\<close>,
  not as its name and its type.
\<close>

theorem trailing_comma_type_counterexample:
  "spec_column_decl \<lparr>name = ''b'', type = ''JSON,'', is_null = True\<rparr> = ''b JSON,''
   \<and> generate_sql GOOGLE_STANDARD_SQL ''docs'' ''id'' ''content'' ''embedding''
         (Some [\<lparr>name = ''b'', type = ''JSON,'', is_null = True\<rparr>]) =
       ''CREATE TABLE docs (\<newline>  id STRING(36) DEFAULT (GENERATE_UUID()),\<newline>  content STRING(MAX),\<newline>  embedding ARRAY<FLOAT64>,\<newline>  b JSON\<newline>) PRIMARY KEY(id)''"
  by (simp add: spec_column_decl_def generate_sql_def column_config_sql_def rstrip_def)

section \<open>The search statement\<close>

text \<open>
  Claim C1. For every similarity search with a query vector, a limit and an optional
  filter: when the staleness of the store is an interval of time that exists, the
  request is the statement \<open>SELECT <columns>, <function>(<embedding column>,
  <placeholder>) AS distance FROM <table> WHERE <filter> ORDER BY distance LIMIT
  <k>\<close>, laid out as in the source; the filter is the caller's text, or \<open>1 = 1\<close>
  without one; the placeholder is \<open>$1\<close> for POSTGRESQL and \<open>@vector_embedding\<close>
  otherwise; the vector is the one parameter of the request, typed as an array of
  FLOAT64, and the text of the statement is the same for every vector. The search
  sends this request to the snapshot and converts the rows that come back. When the
  staleness is no such interval the search raises \<^verbatim>\<open>OverflowError\<close> and no
  statement is made.
\<close>

theorem search_statement_shape:
  "search_request s embedding k pre_filter =
     (if - 999999999 \<le> staleness (self_query_parameters s) div 86400
         \<and> staleness (self_query_parameters s) div 86400 \<le> 999999999
      then
        Inr \<lparr>sql =
               ''\<newline>            SELECT '' @ join '','' (self_columns_to_insert s) @ '','' @ '' ''
                 @ getDistanceFunction (self_dialect_semantics s)
                     (distance_strategy (self_query_parameters s))
                 @ ''('' @ self_embedding_column s @ '', ''
                 @ (if database_dialect (self_database s) = POSTGRESQL then ''$1''
                    else ''@vector_embedding'')
                 @ '') AS distance\<newline>            FROM '' @ self_table_name s
                 @ '' \<newline>            WHERE ''
                 @ (case pre_filter of Some f \<Rightarrow> f | None \<Rightarrow> ''1 = 1'')
                 @ ''\<newline>            ORDER BY distance\<newline>            LIMIT '' @ str_int k
                 @ '';\<newline>        '',
             params =
               [(if database_dialect (self_database s) = POSTGRESQL then ''p1''
                 else ''vector_embedding'', embedding)],
             param_types =
               [(if database_dialect (self_database s) = POSTGRESQL then ''p1''
                 else ''vector_embedding'', Array FLOAT64)],
             exact_staleness = staleness (self_query_parameters s)\<rparr>
      else Inl OverflowError)
   \<and> similarity_search_with_score_by_vector s embedding k pre_filter =
       (case search_request s embedding k pre_filter of
          Inr request \<Rightarrow>
            sequence_err
              (map (row_to_document s) (snapshot_execute_sql (self_database s) request))
        | Inl e \<Rightarrow> Inl e)
   \<and> map_sum id sql (search_request s embedding' k pre_filter) =
       map_sum id sql (search_request s embedding k pre_filter)"
  by (simp add: search_request_def similarity_search_with_score_by_vector_def
        timedelta_seconds_def search_sql_template_def bind_err_def
        DISTANCE_SELECT_QUERY_NAME_def)

theorem search_statement_shape_witness:
  "search_request demo_store [1, 2] 4 None =
     Inr \<lparr>sql = ''\<newline>            SELECT id,content,embedding,source,metadata, EUCLIDEAN_DISTANCE(embedding, @vector_embedding) AS distance\<newline>            FROM docs \<newline>            WHERE 1 = 1\<newline>            ORDER BY distance\<newline>            LIMIT 4;\<newline>        '',
          params = [(''vector_embedding'', [1, 2])],
          param_types = [(''vector_embedding'', Array FLOAT64)],
          exact_staleness = 0\<rparr>
   \<and> similarity_search_with_score_by_vector demo_store [1, 2] 4 None =
       Inr [(\<lparr>page_content = PyStr ''hello'', metadata = JsonObject [(''lang'', PyStr ''en'')]\<rparr>,
             PyFloat 0)]
   \<and> search_request
         (demo_store\<lparr>self_query_parameters :=
            \<lparr>algorithm = BRUTE_FORCE, distance_strategy = COSINE,
             staleness = 86400000000000\<rparr>\<rparr>) [1, 2] 4 None = Inl OverflowError"
proof -
  have request: "search_request demo_store [1, 2] 4 None =
     Inr \<lparr>sql = ''\<newline>            SELECT id,content,embedding,source,metadata, EUCLIDEAN_DISTANCE(embedding, @vector_embedding) AS distance\<newline>            FROM docs \<newline>            WHERE 1 = 1\<newline>            ORDER BY distance\<newline>            LIMIT 4;\<newline>        '',
          params = [(''vector_embedding'', [1, 2])],
          param_types = [(''vector_embedding'', Array FLOAT64)],
          exact_staleness = 0\<rparr>"
    using search_statement_shape [of demo_store "[1, 2]" 4 None "[]", THEN conjunct1]
    by (simp add: demo_store_def demo_database_def demo_query_parameters_def str_int_def
          str_nat.simps)
  have rows: "snapshot_execute_sql (self_database demo_store) request = [demo_row]" for request
    by (simp add: demo_store_def demo_database_def)
  have document: "row_to_document demo_store demo_row =
      Inr (\<lparr>page_content = PyStr ''hello'', metadata = JsonObject [(''lang'', PyStr ''en'')]\<rparr>,
           PyFloat 0)"
    by (simp add: row_to_document_def column_order_map_def enumerate_def demo_store_def
          demo_row_def row_cell_def dict_lookup_def dict_get_def py_index_def bind_err_def
          DISTANCE_SELECT_QUERY_NAME_def upt_rec)
  have search: "similarity_search_with_score_by_vector demo_store [1, 2] 4 None =
       Inr [(\<lparr>page_content = PyStr ''hello'', metadata = JsonObject [(''lang'', PyStr ''en'')]\<rparr>,
             PyFloat 0)]"
    using search_statement_shape [of demo_store "[1, 2]" 4 None "[]", THEN conjunct2, THEN conjunct1]
    by (simp add: request rows document)
  have overflow: "search_request
         (demo_store\<lparr>self_query_parameters :=
            \<lparr>algorithm = BRUTE_FORCE, distance_strategy = COSINE,
             staleness = 86400000000000\<rparr>\<rparr>) [1, 2] 4 None = Inl OverflowError"
    using search_statement_shape
            [of "demo_store\<lparr>self_query_parameters :=
                   \<lparr>algorithm = BRUTE_FORCE, distance_strategy = COSINE,
                    staleness = 86400000000000\<rparr>\<rparr>" "[1, 2]" 4 None "[]", THEN conjunct1]
    by simp
  show ?thesis using request search overflow by simp
qed

section \<open>Reading a result row\<close>

lemma dict_get_dict_set:
  "dict_get (dict_set d k v) k' = (if k' = k then Some v else dict_get d k')"
  by (induction d) (auto simp: dict_get_def)






section \<open>Validation of column configuration\<close>

text \<open>
  Claim C9, as amended. Constructing a \<^verbatim>\<open>TableColumn\<close> raises a \<^verbatim>\<open>ValueError\<close>
  exactly when its name or its type is unset, that is \<^verbatim>\<open>None\<close>, and it raises
  nothing else; for every other name and type, empty ones among them, it gives the
  column with that name, that type and that nullability. The check is made when the
  column is made, so before any statement is assembled from it.
\<close>

theorem column_validation:
  "((\<exists>msg. TableColumn_init n t nul = Inl (ValueError msg)) \<longleftrightarrow> (n = None \<or> t = None))
   \<and> (\<forall>e. TableColumn_init n t nul = Inl e \<longrightarrow> (\<exists>msg. e = ValueError msg))
   \<and> (\<forall>n' t'. n = Some n' \<and> t = Some t' \<longrightarrow>
          TableColumn_init n t nul = Inr \<lparr>name = n', type = t', is_null = nul\<rparr>)"
  by (auto simp: TableColumn_init_def split: option.splits)

theorem column_validation_witness:
  "(\<exists>msg. TableColumn_init (Some ''note'') None True = Inl (ValueError msg))
   \<and> (\<exists>msg. TableColumn_init None (Some ''JSON'') True = Inl (ValueError msg))
   \<and> TableColumn_init (Some ''note'') (Some ''JSON'') True =
       Inr \<lparr>name = ''note'', type = ''JSON'', is_null = True\<rparr>"
  using column_validation [of "Some ''note''" None True]
        column_validation [of None "Some ''JSON''" True]
        column_validation [of "Some ''note''" "Some ''JSON''" True]
  by simp

text \<open>
  An empty type passes the constructor, and \<^verbatim>\<open>_generate_sql\<close> checks neither it
  nor the name of the id column: with both empty it returns a statement, in either
  dialect.
\<close>

theorem empty_identifiers_counterexample:
  "TableColumn_init (Some ''note'') (Some []) True =
     Inr \<lparr>name = ''note'', type = [], is_null = True\<rparr>
   \<and> generate_sql GOOGLE_STANDARD_SQL ''docs'' [] ''content'' ''embedding''
         (Some [\<lparr>name = ''note'', type = [], is_null = True\<rparr>]) =
       ''CREATE TABLE docs (\<newline>   STRING(36) DEFAULT (GENERATE_UUID()),\<newline>  content STRING(MAX),\<newline>  embedding ARRAY<FLOAT64>,\<newline>  note \<newline>) PRIMARY KEY()''
   \<and> generate_sql POSTGRESQL ''docs'' [] ''content'' ''embedding''
         (Some [\<lparr>name = ''note'', type = [], is_null = True\<rparr>]) =
       ''CREATE TABLE docs (\<newline>   varchar(36) DEFAULT (spanner.generate_uuid()),\<newline>  content text,\<newline>  embedding float8[],\<newline>  note ,\<newline>  PRIMARY KEY()\<newline>)''"
  by (simp add: TableColumn_init_def generate_sql_def column_config_sql_def rstrip_def)

section \<open>Deletion: validation\<close>

text \<open>
  Claim C7, as amended. \<^verbatim>\<open>delete\<close> fails with its validation error when neither
  ids nor documents are given, that is when both are \<^verbatim>\<open>None\<close>, and it then
  leaves the world as it was: no statement has been run.
\<close>

theorem delete_validation:
  "delete s None None w = (Inl (Exception ''Pass id/documents to delete''), w)"
  by (simp add: delete_def)

theorem delete_validation_witness:
  "delete demo_store None None demo_world =
     (Inl (Exception ''Pass id/documents to delete''), demo_world)
   \<and> dml_log (snd (delete demo_store None None demo_world)) = []"
  using delete_validation [of demo_store demo_world]
  by (simp add: demo_world_def)

text \<open>An empty list of ids is a list of ids: the check passes and a statement is run.\<close>

theorem delete_empty_ids_counterexample:
  "delete demo_store (Some []) None demo_world =
     (Inr True,
      demo_world\<lparr>dml_log :=
        [''\<newline>                DELETE FROM docs \<newline>                WHERE (id) IN \<newline>                '']\<rparr>)"
  by (simp add: delete_def delete_sql_template_def demo_store_def demo_world_def)

text \<open>
  Claim C8, on the code. For a call of \<^verbatim>\<open>delete\<close> with documents and without ids
  the claim asks for an explicit error. The code raises none: the branch for
  documents does nothing, the statement is built from the empty lists of columns and
  values, it is run, and the call returns \<^verbatim>\<open>True\<close>.
\<close>

theorem delete_by_documents_runs_statement:
  "delete demo_store None (Some [demo_document]) demo_world =
     (Inr True,
      demo_world\<lparr>dml_log :=
        [''\<newline>                DELETE FROM docs \<newline>                WHERE () IN \<newline>                '']\<rparr>)"
  by (simp add: delete_def delete_sql_template_def demo_store_def demo_world_def)

section \<open>Ingestion: validation\<close>

text \<open>
  Claim C6, as amended. Take a call of \<^verbatim>\<open>add_texts\<close> in which the list of ids,
  or the list of metadata, is given with a length other than the number of texts.
  With at least one text the call fails with an assertion error; without texts it
  returns the empty list. Either way it leaves the world as it was: the embedding
  service has not been called and nothing has been written.
\<close>

theorem length_mismatch_rejected:
  assumes "(\<exists>given. ids = Some given \<and> length given \<noteq> length (py_list texts))
       \<or> (\<exists>given. metadatas = Some given \<and> length given \<noteq> length (py_list texts))"
  shows "add_texts s texts metadatas ids batch_size w =
           (if py_list texts = [] then (Inr [], w) else (Inl AssertionError, w))"
  using assms by (auto simp: add_texts_def Let_def split: option.splits)

theorem length_mismatch_rejected_witness:
  "add_texts demo_store (PySequence [''a'', ''b'']) None (Some [''k1'']) 5000 demo_world =
     (Inl AssertionError, demo_world)
   \<and> add_texts demo_store (PySequence [''a'', ''b'']) (Some [0]) None 5000 demo_world =
     (Inl AssertionError, demo_world)
   \<and> add_texts demo_store (PyGenerator [''a'', ''b'']) (Some [0]) None 5000 demo_world =
     (Inl AssertionError, demo_world)"
  using length_mismatch_rejected
          [of "Some [''k1'']" "PySequence [''a'', ''b'']" None demo_store 5000 demo_world]
        length_mismatch_rejected
          [of None "PySequence [''a'', ''b'']" "Some [0]" demo_store 5000 demo_world]
        length_mismatch_rejected
          [of None "PyGenerator [''a'', ''b'']" "Some [0]" demo_store 5000 demo_world]
  by simp

text \<open>
  Without texts the call returns the empty list before it looks at the lengths, so a
  list of ids of another length is not rejected.
\<close>

theorem length_mismatch_empty_texts_counterexample:
  "length [''k1''] \<noteq> length (py_list (PySequence ([] :: string list)))
   \<and> add_texts demo_store (PySequence []) None (Some [''k1'']) 5000 demo_world = (Inr [], demo_world)"
  by (simp add: add_texts_def)

section \<open>Ingestion: the values collected per column\<close>

lemma dict_keys_dict_set:
  "dict_keys (dict_set d k v) = (if k \<in> set (dict_keys d) then dict_keys d else dict_keys d @ [k])"
proof (induction d)
  case Nil
  then show ?case by (simp add: dict_keys_def)
next
  case (Cons p d)
  obtain k' v' where p: "p = (k', v')" by (cases p)
  show ?case using Cons.IH by (cases "k' = k") (simp_all add: p dict_keys_def)
qed

lemma distinct_dict_set: "distinct (dict_keys d) \<Longrightarrow> distinct (dict_keys (dict_set d k v))"
  by (simp add: dict_keys_dict_set)

lemma dict_keys_dict_append: "dict_keys (dict_append d k x) = dict_keys d"
  by (induction d) (auto simp: dict_keys_def dict_append_def)

lemma dict_get_dict_append:
  "dict_get (dict_append d k x) k' =
     (if k' = k then map_option (\<lambda>l. l @ [x]) (dict_get d k') else dict_get d k')"
  by (induction d) (auto simp: dict_get_def dict_append_def)

lemma dict_get_in_set:
  "distinct (dict_keys d) \<Longrightarrow> (k, v) \<in> set d \<longleftrightarrow> dict_get d k = Some v"
  by (simp add: dict_get_def dict_keys_def)

lemma dict_keys_fold_dict_set:
  "dict_keys (fold (\<lambda>key d. dict_set d key (f key)) ks d0) =
     fold (\<lambda>k acc. if k \<in> set acc then acc else acc @ [k]) ks (dict_keys d0)"
  by (induction ks arbitrary: d0) (simp_all add: dict_keys_dict_set)

lemma dict_get_fold_dict_set_empty:
  "dict_get (fold (\<lambda>key d. dict_set d key []) ks d0) k =
     (if k \<in> set ks then Some [] else dict_get d0 k)"
proof (induction ks arbitrary: d0)
  case Nil
  then show ?case by simp
next
  case (Cons a ks)
  then show ?case by (auto simp: dict_get_dict_set)
qed

lemma distinct_fold_dict_set:
  "distinct (dict_keys d0) \<Longrightarrow> distinct (dict_keys (fold (\<lambda>key d. dict_set d key (f key)) ks d0))"
  by (induction ks arbitrary: d0) (simp_all add: distinct_dict_set)

lemma dict_keys_append_column_values:
  "dict_keys (append_column_values s d vd) = dict_keys vd"
proof -
  have "dict_keys (fold (\<lambda>c vd. dict_append vd c (column_value d c)) cs vd) = dict_keys vd" for cs
    by (induction cs arbitrary: vd) (simp_all add: dict_keys_dict_append)
  then show ?thesis by (simp add: append_column_values_def)
qed

lemma dict_get_append_column_values:
  "dict_get (append_column_values s d vd) k =
     map_option (\<lambda>l. l @ replicate (count_list (self_metadata_columns s) k) (column_value d k))
       (dict_get vd k)"
proof -
  have "dict_get (fold (\<lambda>c vd. dict_append vd c (column_value d c)) cs vd) k =
      map_option (\<lambda>l. l @ replicate (count_list cs k) (column_value d k)) (dict_get vd k)" for cs
  proof (induction cs arbitrary: vd)
    case Nil
    then show ?case by (simp add: option.map_ident)
  next
    case (Cons c cs)
    show ?case
      by (simp add: Cons.IH dict_get_dict_append option.map_comp comp_def replicate_app_Cons_same)
  qed
  then show ?thesis by (simp add: append_column_values_def)
qed

lemma column_value_eq: "column_value d k = spec_metadata_value d k"
  by (simp add: column_value_def spec_metadata_value_def split: option.splits)

lemma set_json_column_eq: "set_json_column s d = spec_set_json (self_metadata_json_column s) d"
  by (simp add: set_json_column_def spec_set_json_def)

lemma dict_keys_metadata_loop:
  "dict_keys (fst (metadata_loop s rs vd h)) = dict_keys vd"
  by (induction rs arbitrary: vd h) (simp_all add: Let_def dict_keys_append_column_values)

lemma dict_get_metadata_loop:
  "dict_get (fst (metadata_loop s rs vd h)) k =
     map_option
       (\<lambda>l. l @ concat (map (\<lambda>d. replicate (count_list (self_metadata_columns s) k)
                                    (spec_metadata_value d k))
                          (spec_row_metadatas (self_metadata_json_column s) rs h)))
       (dict_get vd k)"
proof (induction rs arbitrary: vd h)
  case Nil
  then show ?case by (simp add: option.map_ident)
next
  case (Cons r rs)
  show ?case
    by (cases r)
       (simp_all add: Let_def Cons.IH dict_get_append_column_values option.map_comp comp_def
          fun_upd_def column_value_eq set_json_column_eq)
qed

lemma snd_metadata_loop_Some:
  "snd (metadata_loop s (map Some given) vd h) =
     (case self_metadata_json_column s of Some j \<Rightarrow> spec_heap_after j given h | None \<Rightarrow> h)"
proof (induction given arbitrary: vd h)
  case Nil
  then show ?case by (simp add: spec_heap_after_def split: option.splits)
next
  case (Cons a given)
  show ?case
    by (cases "self_metadata_json_column s")
       (simp_all add: Let_def Cons.IH spec_heap_after_def set_json_column_def)
qed

lemma snd_metadata_loop_None:
  "snd (metadata_loop s (map (\<lambda>_. None) xs) vd h) = h"
  by (induction xs arbitrary: vd h) (simp_all add: Let_def)

lemma length_spec_row_metadatas: "length (spec_row_metadatas json rs h) = length rs"
  by (induction rs arbitrary: h) simp_all

lemma dict_keys_map_values: "dict_keys (map (\<lambda>(key, l). (key, f l)) d) = dict_keys d"
  by (induction d) (auto simp: dict_keys_def)

lemma dict_get_map_values:
  "dict_get (map (\<lambda>(key, l). (key, f l)) d) k = map_option f (dict_get d k)"
  by (induction d) (auto simp: dict_get_def)

section \<open>Ingestion: rows and batches\<close>

lemma sequence_err_map_Inr:
  "(\<And>x. x \<in> set xs \<Longrightarrow> f x = Inr (g x)) \<Longrightarrow> sequence_err (map f xs) = Inr (map g xs)"
  by (induction xs) auto

lemma sequence_err_Inr:
  "sequence_err rs = Inr ys \<Longrightarrow> rs = map Inr ys"
proof (induction rs arbitrary: ys)
  case Nil
  then show ?case by simp
next
  case (Cons r rs)
  then show ?case by (auto split: sum.splits)
qed

lemma sequence_err_Inl_member:
  "Inl e \<in> set rs \<Longrightarrow> \<exists>e'. sequence_err rs = Inl e'"
  by (induction rs) (auto split: sum.splits)

lemma py_getitem_Inr:
  "py_getitem v i = Inr x \<longleftrightarrow> (\<exists>l. v = ValueList l \<and> i < length l \<and> x = l ! i)"
  by (cases v) (auto simp: py_getitem_def py_index_def)

lemma build_row_Inr:
  assumes "build_row vd i = Inr row"
  shows "row = map (\<lambda>(key, v). value_list v ! i) vd
     \<and> (\<forall>(key, v) \<in> set vd. \<exists>l. v = ValueList l \<and> i < length l)"
proof -
  have eq: "map (\<lambda>(key, v). py_getitem v i) vd = map Inr row"
    using assms unfolding build_row_def by (rule sequence_err_Inr)
  then have len: "length row = length vd" by (metis length_map)
  have nth: "py_getitem (snd (vd ! n)) i = Inr (row ! n)" if "n < length vd" for n
    using arg_cong[OF eq, of "\<lambda>xs. xs ! n"] that len by (simp add: split_beta)
  have "row ! n = (\<lambda>(key, v). value_list v ! i) (vd ! n)" if "n < length vd" for n
    using nth[OF that] by (auto simp: py_getitem_Inr split_beta)
  then have "row = map (\<lambda>(key, v). value_list v ! i) vd"
    using len by (intro nth_equalityI) simp_all
  moreover have "\<exists>l. v = ValueList l \<and> i < length l" if "(key, v) \<in> set vd" for key v
  proof -
    from that obtain n where "n < length vd" "vd ! n = (key, v)" by (auto simp: in_set_conv_nth)
    then show ?thesis using nth[of n] by (auto simp: py_getitem_Inr)
  qed
  ultimately show ?thesis by auto
qed

lemma rows_to_insert_Inr:
  assumes "rows_to_insert vd n = Inr rows"
  shows "rows = spec_rows vd n
     \<and> (\<forall>i < n. \<forall>(key, v) \<in> set vd. \<exists>l. v = ValueList l \<and> i < length l)"
proof -
  have eq: "map (build_row vd) [0..<n] = map Inr rows"
    using assms unfolding rows_to_insert_def by (rule sequence_err_Inr)
  then have len: "length rows = n" by (metis length_map length_upt minus_nat.diff_0)
  have nth: "build_row vd i = Inr (rows ! i)" if "i < n" for i
    using arg_cong[OF eq, of "\<lambda>xs. xs ! i"] that len by simp
  have "rows = spec_rows vd n"
    using len build_row_Inr[OF nth] by (intro nth_equalityI) (simp_all add: spec_rows_def)
  then show ?thesis using build_row_Inr[OF nth] by blast
qed

lemma build_row_ok:
  assumes "\<And>k v. (k, v) \<in> set vd \<Longrightarrow> \<exists>l. v = ValueList l \<and> i < length l"
  shows "build_row vd i = Inr (map (\<lambda>(k, v). value_list v ! i) vd)"
  unfolding build_row_def
proof (rule sequence_err_map_Inr)
  fix x assume "x \<in> set vd"
  then show "(case x of (key, v) \<Rightarrow> py_getitem v i) = Inr (case x of (k, v) \<Rightarrow> value_list v ! i)"
    using assms[of "fst x" "snd x"] by (auto simp: py_getitem_def py_index_def split_beta)
qed

lemma rows_to_insert_ok:
  assumes "\<And>k v. (k, v) \<in> set vd \<Longrightarrow> \<exists>l. v = ValueList l \<and> n \<le> length l"
  shows "rows_to_insert vd n = Inr (spec_rows vd n)"
  unfolding rows_to_insert_def spec_rows_def
proof (rule sequence_err_map_Inr)
  fix i assume "i \<in> set [0..<n]"
  then have "i < n" by simp
  then show "build_row vd i = Inr (map (\<lambda>(k, v). value_list v ! i) vd)"
    using assms by (intro build_row_ok) fastforce
qed

lemma rows_to_insert_not_subscriptable:
  assumes "(k, NotSubscriptable) \<in> set vd" and "0 < n"
  shows "\<exists>e. rows_to_insert vd n = Inl e"
proof -
  have "Inl TypeError \<in> set (map (\<lambda>(key, v). py_getitem v 0) vd)"
    using assms(1) by (force simp: py_getitem_def)
  then obtain e where "build_row vd 0 = Inl e"
    unfolding build_row_def using sequence_err_Inl_member by blast
  moreover have "0 \<in> set [0..<n]" using assms(2) by simp
  ultimately have "Inl e \<in> set (map (build_row vd) [0..<n])" by force
  then show ?thesis
    unfolding rows_to_insert_def by (rule sequence_err_Inl_member)
qed

lemma insert_batches_log:
  "0 < b \<Longrightarrow>
     insert_batches s cols rows b i w =
       w\<lparr>insert_log := insert_log w @ map (spec_insert_op s cols) (spec_chunks b (drop i rows))\<rparr>"
proof (induction s cols rows b i w rule: insert_batches.induct)
  case (1 s cols rows b i w)
  show ?case
  proof (cases "i < length rows")
    case True
    have "spec_chunks b (drop i rows) = take b (drop i rows) # spec_chunks b (drop (i + b) rows)"
      using True "1.prems" by (subst spec_chunks.simps) (simp add: add.commute)
    moreover have "insert_batches s cols rows b i w =
        insert_batches s cols rows b (i + b) (insert_data s (take b (drop i rows)) cols w)"
      using True "1.prems" by (subst insert_batches.simps) simp
    ultimately show ?thesis
      using "1.IH" True "1.prems" by (simp add: insert_data_def spec_insert_op_def)
  next
    case False
    then have "spec_chunks b (drop i rows) = []" by (subst spec_chunks.simps) simp
    moreover have "insert_batches s cols rows b i w = w"
      using False by (subst insert_batches.simps) simp
    ultimately show ?thesis by simp
  qed
qed

lemma concat_spec_chunks: "0 < b \<Longrightarrow> concat (spec_chunks b xs) = xs"
proof (induction b xs rule: spec_chunks.induct)
  case (1 b xs)
  show ?case
  proof (cases "xs = []")
    case True
    then show ?thesis by (subst spec_chunks.simps) simp
  next
    case False
    then show ?thesis using 1 by (subst spec_chunks.simps) simp
  qed
qed

lemma length_spec_chunks: "0 < b \<Longrightarrow> length (spec_chunks b xs) = (length xs + b - 1) div b"
proof (induction b xs rule: spec_chunks.induct)
  case (1 b xs)
  show ?case
  proof (cases "xs = []")
    case True
    then show ?thesis using "1.prems" by (subst spec_chunks.simps) simp
  next
    case False
    then have step: "length (spec_chunks b xs) = Suc ((length xs - b + b - 1) div b)"
      using 1 by (subst spec_chunks.simps) simp
    show ?thesis
    proof (cases "length xs \<le> b")
      case True
      obtain n where n: "length xs = Suc n" using False by (cases xs) auto
      have "b * 1 \<le> length xs + b - 1" and "length xs + b - 1 < b * Suc 1"
        using True "1.prems" unfolding n by auto
      then have "(length xs + b - 1) div b = 1"
        by (rule div_nat_eqI)
      then show ?thesis using step True "1.prems" by simp
    next
      case gt: False
      then have eq: "length xs + b - 1 = (length xs - 1) + b" by simp
      have "(length xs + b - 1) div b = ((length xs - 1) + b) div b"
        by (simp only: eq)
      also have "\<dots> = Suc ((length xs - 1) div b)"
        using div_add_self2 [of b "length xs - 1"] "1.prems" by simp
      finally have "(length xs + b - 1) div b = Suc ((length xs - 1) div b)" .
      moreover have "length xs - b + b - 1 = length xs - 1" using gt by simp
      ultimately show ?thesis using step by (simp only:)
    qed
  qed
qed

lemma nth_spec_chunks:
  "0 < b \<Longrightarrow> j < length (spec_chunks b xs) \<Longrightarrow> spec_chunks b xs ! j = take b (drop (j * b) xs)"
proof (induction b xs arbitrary: j rule: spec_chunks.induct)
  case (1 b xs)
  from "1.prems" have ne: "xs \<noteq> []" by (subst (asm) spec_chunks.simps) (auto split: if_splits)
  have unfold: "spec_chunks b xs = take b xs # spec_chunks b (drop b xs)"
    using ne "1.prems"(1) by (subst spec_chunks.simps) simp
  show ?case
  proof (cases j)
    case 0
    then show ?thesis using unfold by simp
  next
    case (Suc j')
    then have "j' < length (spec_chunks b (drop b xs))" using "1.prems"(2) unfold by simp
    then have "spec_chunks b (drop b xs) ! j' = take b (drop (j' * b) (drop b xs))"
      using "1.IH" ne "1.prems"(1) by simp
    then show ?thesis using unfold Suc by (simp add: add.commute)
  qed
qed

section \<open>Ingestion: what a call does\<close>

lemma collect_values_eq:
  "collect_values s texts mds ids embeds h =
     (dict_set
        (dict_set
           (case ids of
              Some given \<Rightarrow>
                dict_set
                  (map (\<lambda>(key, l). (key, ValueList l))
                     (fst (metadata_loop s mds
                             (fold (\<lambda>key d. dict_set d key []) (self_metadata_columns s) []) h)))
                  (self_id_column s) (ValueList (map PyStr given))
            | None \<Rightarrow>
                map (\<lambda>(key, l). (key, ValueList l))
                  (fst (metadata_loop s mds
                          (fold (\<lambda>key d. dict_set d key []) (self_metadata_columns s) []) h)))
           (self_content_column s) (texts_values texts))
        (self_embedding_column s) (ValueList (map embedding_value embeds)),
      snd (metadata_loop s mds
             (fold (\<lambda>key d. dict_set d key []) (self_metadata_columns s) []) h))"
  by (cases mds; cases ids) (simp_all add: collect_values_def Let_def split_beta)

lemma dict_keys_collect_values:
  "dict_keys (fst (collect_values s texts mds ids embeds h)) = spec_insert_columns s ids"
proof -
  have nil: "dict_keys ([] :: pyval list pydict) = []" by (simp add: dict_keys_def)
  show ?thesis
    by (cases ids)
       (simp_all add: collect_values_eq spec_insert_columns_def dict_keys_dict_set
          dict_keys_metadata_loop dict_keys_fold_dict_set dict_keys_map_values nil)
qed

lemma dict_get_collect_values:
  "dict_get (fst (collect_values s texts mds ids embeds h)) k =
     (if k = self_embedding_column s then Some (ValueList (map embedding_value embeds))
      else if k = self_content_column s then Some (texts_values texts)
      else if ids \<noteq> None \<and> k = self_id_column s then Some (ValueList (map PyStr (the ids)))
      else if k \<in> set (self_metadata_columns s) then
        Some (ValueList
                (concat (map (\<lambda>d. replicate (count_list (self_metadata_columns s) k)
                                      (spec_metadata_value d k))
                           (spec_row_metadatas (self_metadata_json_column s) mds h))))
      else None)"
proof -
  have nil: "dict_get ([] :: pyval list pydict) k = None" by (simp add: dict_get_def)
  show ?thesis
    by (cases ids)
       (simp_all add: collect_values_eq dict_get_dict_set dict_get_metadata_loop
          dict_get_fold_dict_set_empty dict_get_map_values nil)
qed

lemma dict_keys_spec_values_dict:
  "dict_keys (spec_values_dict s texts metadatas ids h) = spec_insert_columns s ids"
  by (simp add: spec_values_dict_def dict_keys_collect_values)

lemma dict_get_spec_values_dict:
  "dict_get (spec_values_dict s texts metadatas ids h) k = spec_collected s texts metadatas ids h k"
  by (simp add: spec_values_dict_def dict_get_collect_values spec_collected_def)

lemma snd_collect_values:
  "snd (collect_values s texts (spec_metadata_refs texts metadatas) ids embeds h) =
     (case metadatas of
        Some given \<Rightarrow>
          (case self_metadata_json_column s of
             Some j \<Rightarrow> spec_heap_after j given h
           | None \<Rightarrow> h)
      | None \<Rightarrow> h)"
  by (cases metadatas; cases "self_metadata_json_column s")
     (simp_all add: collect_values_eq spec_metadata_refs_def snd_metadata_loop_Some
        snd_metadata_loop_None)

lemma spec_chunks_Nil: "spec_chunks b [] = []"
  by (subst spec_chunks.simps) simp

lemma add_texts_eq:
  "add_texts s texts metadatas ids batch_size w =
     (if py_list texts = [] then (Inr [], w)
      else if (case ids of Some given \<Rightarrow> length given \<noteq> length (py_list texts) | None \<Rightarrow> False)
           \<or> (case metadatas of Some given \<Rightarrow> length given \<noteq> length (py_list texts) | None \<Rightarrow> False)
        then (Inl AssertionError, w)
      else
        let w2 = w\<lparr>embed_log := embed_log w @ [py_list texts],
                   heap := (case metadatas of
                              Some given \<Rightarrow>
                                (case self_metadata_json_column s of
                                   Some j \<Rightarrow> spec_heap_after j given (heap w)
                                 | None \<Rightarrow> heap w)
                            | None \<Rightarrow> heap w)\<rparr>
        in
        (case rows_to_insert (spec_values_dict s texts metadatas ids (heap w))
                (length (py_list texts)) of
           Inl e \<Rightarrow> (Inl e, w2)
         | Inr rows \<Rightarrow>
             if batch_size = 0 then (Inl (ValueError ''range() arg 3 must not be zero''), w2)
             else
               (Inr (case ids of Some given \<Rightarrow> given | None \<Rightarrow> []),
                if batch_size < 0 then w2
                else w2\<lparr>insert_log := insert_log w @
                          map (spec_insert_op s (spec_insert_columns s ids))
                            (spec_chunks (nat batch_size) rows)\<rparr>)))"
proof -
  let ?cv = "collect_values s texts (spec_metadata_refs texts metadatas) ids
               (embed_documents (self_embedding_service s) (py_list texts)) (heap w)"
  have fst_cv: "fst ?cv = spec_values_dict s texts metadatas ids (heap w)"
    by (simp add: spec_values_dict_def)
  have batches: "insert_batches s cols rows (nat batch_size) 0 w' =
      w'\<lparr>insert_log := insert_log w' @ map (spec_insert_op s cols) (spec_chunks (nat batch_size) rows)\<rparr>"
    if "0 < batch_size" for cols rows w'
    using that insert_batches_log[of "nat batch_size" s cols rows 0 w'] by simp
  show ?thesis
    unfolding add_texts_def Let_def split_beta spec_metadata_refs_def[symmetric]
    by (auto simp: fst_cv[simplified] snd_collect_values dict_keys_spec_values_dict batches
          split: sum.splits)
qed

lemma distinct_spec_values_dict:
  "distinct (dict_keys (spec_values_dict s texts metadatas ids h))"
proof -
  have "distinct (fold (\<lambda>k acc. if k \<in> set acc then acc else acc @ [k]) ks acc)"
    if "distinct acc" for ks acc :: "string list"
    using that by (induction ks arbitrary: acc) simp_all
  then show ?thesis
    by (simp add: dict_keys_spec_values_dict spec_insert_columns_def)
qed

lemma spec_values_dict_member:
  "(k, v) \<in> set (spec_values_dict s texts metadatas ids h) \<longleftrightarrow>
     spec_collected s texts metadatas ids h k = Some v"
  using dict_get_in_set[OF distinct_spec_values_dict, of k v s texts metadatas ids h]
  by (simp add: dict_get_spec_values_dict)

lemma insert_log_add_texts:
  "insert_log (snd (add_texts s texts metadatas ids batch_size w)) =
     insert_log w @ spec_new_inserts w (snd (add_texts s texts metadatas ids batch_size w))"
  by (auto simp: add_texts_eq spec_new_inserts_def Let_def split: sum.splits)

lemma new_inserts_add_texts:
  "spec_new_inserts w (snd (add_texts s texts metadatas ids batch_size w)) =
     map (spec_insert_op s (spec_insert_columns s ids))
       (spec_chunks (nat batch_size)
          (spec_issued_rows s texts metadatas ids batch_size (heap w)))"
  by (auto simp: add_texts_eq spec_new_inserts_def spec_issued_rows_def Let_def spec_chunks_Nil
        split: sum.splits)

lemma length_concat_replicate:
  "length (concat (map (\<lambda>d. replicate c (f d)) ds)) = length ds * c"
  by (induction ds) simp_all

lemma valid_call_rows:
  assumes "spec_valid_call s ts metadatas ids"
  shows "rows_to_insert (spec_values_dict s (PySequence ts) metadatas ids h) (length ts) =
     Inr (spec_rows (spec_values_dict s (PySequence ts) metadatas ids h) (length ts))"
proof (rule rows_to_insert_ok)
  fix k v
  assume "(k, v) \<in> set (spec_values_dict s (PySequence ts) metadatas ids h)"
  then have get: "spec_collected s (PySequence ts) metadatas ids h k = Some v"
    by (simp add: spec_values_dict_member)
  have refs: "length (spec_metadata_refs (PySequence ts) metadatas) = length ts"
    using assms by (auto simp: spec_metadata_refs_def spec_valid_call_def split: option.splits)
  have count: "k \<in> set (self_metadata_columns s) \<Longrightarrow> 1 \<le> count_list (self_metadata_columns s) k"
    using count_list_0_iff[of "self_metadata_columns s" k]
    by (cases "count_list (self_metadata_columns s) k") auto
  show "\<exists>l. v = ValueList l \<and> length ts \<le> length l"
    using get assms refs count
    by (auto simp: spec_collected_def spec_valid_call_def length_concat_replicate
          length_spec_row_metadatas split: if_splits option.splits)
qed

lemma issued_rows_valid:
  assumes "spec_valid_call s ts metadatas ids" and "0 < batch_size"
  shows "spec_issued_rows s (PySequence ts) metadatas ids batch_size h =
     spec_rows (spec_values_dict s (PySequence ts) metadatas ids h) (length ts)"
  using assms valid_call_rows[OF assms(1), of h]
  by (auto simp: spec_issued_rows_def spec_valid_call_def split: option.splits)

lemma add_texts_valid:
  assumes "spec_valid_call s ts metadatas ids" and "0 < batch_size"
  shows "fst (add_texts s (PySequence ts) metadatas ids batch_size w) =
     Inr (case ids of Some given \<Rightarrow> given | None \<Rightarrow> [])"
  using assms valid_call_rows[OF assms(1), of "heap w"]
  by (auto simp: add_texts_eq Let_def spec_valid_call_def split: option.splits)

text \<open>
  A call with the texts in a list that passes the checks and has a batch size
  \<open>B > 0\<close> returns; its inserts are \<open>\<lceil>N / B\<rceil>\<close>, insert \<open>j\<close> carries the rows
  \<open>j * B\<close> up to \<open>j * B + B\<close> of the row list, and the inserts put together give
  the row list.
\<close>

lemma batched_writes_of_a_list:
  assumes "spec_valid_call s ts metadatas ids" and "0 < batch_size"
  shows "let result = add_texts s (PySequence ts) metadatas ids batch_size w;
             new_ops = spec_new_inserts w (snd result);
             rows = spec_rows (spec_values_dict s (PySequence ts) metadatas ids (heap w)) (length ts);
             b = nat batch_size
         in fst result = Inr (case ids of Some given \<Rightarrow> given | None \<Rightarrow> [])
          \<and> rows_to_insert (spec_values_dict s (PySequence ts) metadatas ids (heap w)) (length ts)
              = Inr rows
          \<and> length rows = length ts
          \<and> insert_log (snd result) = insert_log w @ new_ops
          \<and> length new_ops = (length ts + b - 1) div b
          \<and> (\<forall>j < length new_ops.
                insert_values (new_ops ! j) = take b (drop (j * b) rows)
                \<and> length (insert_values (new_ops ! j)) \<le> b)
          \<and> concat (map insert_values new_ops) = rows"
proof -
  let ?vd = "spec_values_dict s (PySequence ts) metadatas ids (heap w)"
  let ?rows = "spec_rows ?vd (length ts)"
  let ?b = "nat batch_size"
  let ?new = "spec_new_inserts w (snd (add_texts s (PySequence ts) metadatas ids batch_size w))"
  have b: "0 < ?b" using assms(2) by simp
  have new_eq: "?new = map (spec_insert_op s (spec_insert_columns s ids)) (spec_chunks ?b ?rows)"
    by (simp add: new_inserts_add_texts issued_rows_valid[OF assms])
  have values_eq: "map insert_values ?new = spec_chunks ?b ?rows"
    by (simp add: new_eq spec_insert_op_def comp_def)
  have len_rows: "length ?rows = length ts" by (simp add: spec_rows_def)
  have "fst (add_texts s (PySequence ts) metadatas ids batch_size w) =
      Inr (case ids of Some given \<Rightarrow> given | None \<Rightarrow> [])"
    by (rule add_texts_valid[OF assms])
  moreover have "rows_to_insert ?vd (length ts) = Inr ?rows"
    by (rule valid_call_rows[OF assms(1)])
  moreover have "insert_log (snd (add_texts s (PySequence ts) metadatas ids batch_size w)) =
      insert_log w @ ?new"
    by (rule insert_log_add_texts)
  moreover have "length ?new = (length ts + ?b - 1) div ?b"
    using length_spec_chunks[OF b, of ?rows] by (simp add: new_eq len_rows)
  moreover have "insert_values (?new ! j) = take ?b (drop (j * ?b) ?rows)
      \<and> length (insert_values (?new ! j)) \<le> ?b" if "j < length ?new" for j
  proof -
    have j: "j < length (spec_chunks ?b ?rows)" using that by (simp add: new_eq)
    then have "insert_values (?new ! j) = spec_chunks ?b ?rows ! j"
      by (simp add: new_eq spec_insert_op_def)
    then show ?thesis using nth_spec_chunks[OF b j] by simp
  qed
  moreover have "concat (map insert_values ?new) = ?rows"
    using concat_spec_chunks[OF b] by (simp add: values_eq)
  ultimately show ?thesis by (simp add: Let_def len_rows)
qed

text \<open>
  Claim C3, on the code. The claim asks for \<open>\<lceil>N / B\<rceil>\<close> inserts from every call
  with \<open>N > 0\<close> texts, and \<^verbatim>\<open>add_texts\<close> takes any iterable of texts. The code
  copies \<^verbatim>\<open>texts\<close> with \<^verbatim>\<open>list(texts)\<close> and then reads \<^verbatim>\<open>texts\<close> itself
  again for the content column (line 438). When \<^verbatim>\<open>texts\<close> is a generator, or
  another iterable without indexing, of \<open>N > 0\<close> texts, on a store whose content
  and embedding columns differ, the call raises and issues no insert at all, whatever
  the batch size.
\<close>

theorem unindexed_texts_write_nothing:
  assumes "texts = PyGenerator ts \<or> texts = PyCollection ts" and "ts \<noteq> []"
    and "self_content_column s \<noteq> self_embedding_column s"
  shows "(\<exists>e. fst (add_texts s texts metadatas ids batch_size w) = Inl e)
     \<and> insert_log (snd (add_texts s texts metadatas ids batch_size w)) = insert_log w"
proof -
  have "spec_collected s texts metadatas ids (heap w) (self_content_column s) = Some NotSubscriptable"
    using assms(1,3) by (auto simp: spec_collected_def)
  then have "(self_content_column s, NotSubscriptable)
      \<in> set (spec_values_dict s texts metadatas ids (heap w))"
    by (simp add: spec_values_dict_member)
  moreover have nonempty: "py_list texts \<noteq> []" using assms(1,2) by auto
  ultimately obtain e where
    "rows_to_insert (spec_values_dict s texts metadatas ids (heap w)) (length (py_list texts)) = Inl e"
    using rows_to_insert_not_subscriptable by blast
  then show ?thesis
    using nonempty by (auto simp: add_texts_eq Let_def)
qed

theorem unindexed_texts_write_nothing_witness:
  "add_texts demo_store (PyGenerator [''a'', ''bb'']) None None 1 demo_world =
     (Inl IndexError, demo_world\<lparr>embed_log := [[''a'', ''bb'']]\<rparr>)
   \<and> fst (add_texts demo_store (PyGenerator [''a'', ''bb'']) (Some [0, 1]) None 1 demo_world) =
       Inl TypeError
   \<and> insert_log (snd (add_texts demo_store (PyGenerator [''a'', ''bb'']) (Some [0, 1]) None 1
                         demo_world)) = []
   \<and> map insert_values
       (insert_log (snd (add_texts demo_store (PySequence [''a'', ''bb'']) None None 1 demo_world))) =
       [[[PyNone, JsonObject [], PyStr ''a'', PyList [PyFloat 1]]],
        [[PyNone, JsonObject [], PyStr ''bb'', PyList [PyFloat 2]]]]"
proof -
  have first: "add_texts demo_store (PyGenerator [''a'', ''bb'']) None None 1 demo_world =
     (Inl IndexError, demo_world\<lparr>embed_log := [[''a'', ''bb'']]\<rparr>)"
    by (simp add: add_texts_def collect_values_def demo_store_def demo_world_def
        demo_embeddings_def Let_def rows_to_insert_def build_row_def py_getitem_def py_index_def
        dict_keys_def upt_rec)
  have second: "fst (add_texts demo_store (PyGenerator [''a'', ''bb'']) (Some [0, 1]) None 1 demo_world) =
       Inl TypeError"
    by (simp add: add_texts_def collect_values_def demo_store_def demo_world_def
        demo_embeddings_def Let_def rows_to_insert_def build_row_def py_getitem_def py_index_def
        set_json_column_def append_column_values_def column_value_def dict_get_def
        dict_append_def dict_keys_def upt_rec split_beta)
  have third: "insert_log (snd (add_texts demo_store (PyGenerator [''a'', ''bb'']) (Some [0, 1]) None 1
                         demo_world)) = []"
    using unindexed_texts_write_nothing
            [of "PyGenerator [''a'', ''bb'']" "[''a'', ''bb'']" demo_store "Some [0, 1]" None 1
               demo_world]
    by (simp add: demo_store_def demo_world_def)
  have fourth: "map insert_values
       (insert_log (snd (add_texts demo_store (PySequence [''a'', ''bb'']) None None 1 demo_world))) =
       [[[PyNone, JsonObject [], PyStr ''a'', PyList [PyFloat 1]]],
        [[PyNone, JsonObject [], PyStr ''bb'', PyList [PyFloat 2]]]]"
    by (simp add: add_texts_def collect_values_def demo_store_def demo_world_def
        demo_embeddings_def Let_def rows_to_insert_def build_row_def py_getitem_def py_index_def
        set_json_column_def append_column_values_def column_value_def dict_get_def
        dict_append_def dict_keys_def insert_batches.simps insert_data_def embedding_value_def
        upt_rec)
  show ?thesis using first second third fourth by simp
qed

section \<open>Column order on the read and on the write path\<close>

lemma column_order_map_distance:
  "dict_get (column_order_map s) DISTANCE_SELECT_QUERY_NAME = Some (length (self_columns_to_insert s))"
  by (simp add: column_order_map_def dict_get_dict_set)

lemma dict_get_fold_enumerate:
  "dict_get (fold (\<lambda>(index, v) d. dict_set d v index) (zip [n..<n + length xs] xs) d0) k =
     (case spec_last_index xs k of Some i \<Rightarrow> Some (n + i) | None \<Rightarrow> dict_get d0 k)"
proof (induction xs arbitrary: n d0)
  case Nil
  then show ?case by simp
next
  case (Cons x xs)
  have upt: "[n..<Suc (n + length xs)] = n # [Suc n..<Suc n + length xs]"
    by (simp add: upt_rec)
  show ?case
    using Cons.IH[of "Suc n" "dict_set d0 x n"]
    by (simp add: upt dict_get_dict_set del: upt_Suc split: option.splits)
qed

lemma column_order_map_position:
  assumes "key \<noteq> DISTANCE_SELECT_QUERY_NAME"
  shows "dict_get (column_order_map s) key = spec_last_index (self_columns_to_insert s) key"
proof -
  have nil: "dict_get ([] :: nat pydict) key = None" by (simp add: dict_get_def)
  show ?thesis
    using dict_get_fold_enumerate[of 0 "self_columns_to_insert s" "[]" key] assms
    by (simp add: column_order_map_def enumerate_def dict_get_dict_set nil split: option.splits)
qed

lemma spec_rows_cell:
  "i < n \<Longrightarrow>
     map_of (zip (dict_keys vd) (spec_rows vd n ! i)) k =
       map_option (\<lambda>v. value_list v ! i) (dict_get vd k)"
proof -
  have "zip (map fst vd) (map (\<lambda>(k, v). value_list v ! i) vd) =
      map (\<lambda>(k, v). (k, value_list v ! i)) vd"
    by (induction vd) auto
  then show "i < n \<Longrightarrow> ?thesis"
    by (simp add: spec_rows_def dict_keys_def dict_get_def map_of_map)
qed

lemma spec_row_cells_chunks:
  "spec_row_cells (map (spec_insert_op s cols) chunks) = map (zip cols) (concat chunks)"
  by (induction chunks) (simp_all add: spec_row_cells_def spec_insert_op_def)

lemma concat_chunks_issued_rows:
  "concat (spec_chunks (nat batch_size) (spec_issued_rows s texts metadatas ids batch_size h)) =
     spec_issued_rows s texts metadatas ids batch_size h"
proof (cases "0 < batch_size")
  case True
  then show ?thesis by (simp add: concat_spec_chunks)
next
  case False
  then have "spec_issued_rows s texts metadatas ids batch_size h = []"
    by (simp add: spec_issued_rows_def)
  then show ?thesis by (simp add: spec_chunks_Nil)
qed

lemma row_cells_add_texts:
  "spec_row_cells (spec_new_inserts w (snd (add_texts s texts metadatas ids batch_size w))) =
     map (zip (spec_insert_columns s ids))
       (spec_issued_rows s texts metadatas ids batch_size (heap w))"
  by (simp add: new_inserts_add_texts spec_row_cells_chunks concat_chunks_issued_rows)

lemma issued_rows_built:
  assumes "i < length (spec_issued_rows s texts metadatas ids batch_size h)"
  shows "spec_issued_rows s texts metadatas ids batch_size h =
       spec_rows (spec_values_dict s texts metadatas ids h) (length (py_list texts))
     \<and> i < length (py_list texts)
     \<and> (\<forall>(key, v) \<in> set (spec_values_dict s texts metadatas ids h).
           \<exists>l. v = ValueList l \<and> i < length l)"
proof -
  let ?vd = "spec_values_dict s texts metadatas ids h"
  let ?rows = "spec_issued_rows s texts metadatas ids batch_size h"
  have "?rows \<noteq> []" using assms by auto
  then have built: "rows_to_insert ?vd (length (py_list texts)) = Inr ?rows"
    by (auto simp: spec_issued_rows_def split: if_splits sum.splits)
  have rows: "?rows = spec_rows ?vd (length (py_list texts))"
    and all: "\<forall>i < length (py_list texts). \<forall>(key, v) \<in> set ?vd. \<exists>l. v = ValueList l \<and> i < length l"
    using rows_to_insert_Inr[OF built] by blast+
  have "i < length (py_list texts)"
    using assms unfolding rows by (simp add: spec_rows_def)
  then show ?thesis using rows all by blast
qed

lemma chunk_rows_subset:
  assumes "0 < b" and "c \<in> set (spec_chunks b rows)"
  shows "set c \<subseteq> set rows"
proof -
  have "set c \<subseteq> set (concat (spec_chunks b rows))" using assms(2) by auto
  then show ?thesis by (simp add: concat_spec_chunks[OF assms(1)])
qed

lemma spec_chunks_zero: "spec_chunks 0 xs = []"
  by (subst spec_chunks.simps) simp

text \<open>
  Claim C5, as amended. The store is a value that neither \<^verbatim>\<open>add_texts\<close> nor a
  search changes, so its column list is the one fixed at construction. Every search
  that makes a statement selects that list in its order; the column order map sends
  the name \<open>distance\<close> to the position after the last column, and every other name
  to the position where it occurs last in the list, or to none when it is not in the
  list. Every insert that a call of \<^verbatim>\<open>add_texts\<close> adds names the columns that the
  call computed: the metadata columns of the store, the id column when ids are
  given, content and embedding, a repeated name keeping its first place; this is not
  the list of the construction. Each row has one value per column of that list, in
  the order of the list: the value under a column name is entry \<open>i\<close>, for row
  \<open>i\<close>, of what the call collected under that name. A call with the texts in a
  list that passes the checks, with a vector for every text and a positive batch
  size, inserts one row per text.
\<close>

theorem column_orders:
  "let result = add_texts s texts metadatas ids batch_size w;
       new_ops = spec_new_inserts w (snd result);
       cells = spec_row_cells new_ops;
       columns = self_columns_to_insert s
   in insert_log (snd result) = insert_log w @ new_ops
    \<and> (\<forall>op \<in> set new_ops.
          insert_columns op = spec_insert_columns s ids
          \<and> (\<forall>row \<in> set (insert_values op). length row = length (insert_columns op)))
    \<and> (\<forall>i < length cells. \<forall>key.
          (case spec_collected s texts metadatas ids (heap w) key of
             Some (ValueList l) \<Rightarrow> i < length l \<and> map_of (cells ! i) key = Some (l ! i)
           | Some NotSubscriptable \<Rightarrow> False
           | None \<Rightarrow> map_of (cells ! i) key = None))
    \<and> (\<forall>ts. texts = PySequence ts \<and> spec_valid_call s ts metadatas ids \<and> 0 < batch_size \<longrightarrow>
          length cells = length ts)
    \<and> (search_request s embedding k pre_filter = Inl OverflowError
        \<or> (\<exists>rest. map_sum id sql (search_request s embedding k pre_filter) =
              Inr (''\<newline>            SELECT '' @ join '','' columns @ '','' @ rest)))
    \<and> dict_get (column_order_map s) DISTANCE_SELECT_QUERY_NAME = Some (length columns)
    \<and> (\<forall>key. key \<noteq> DISTANCE_SELECT_QUERY_NAME \<longrightarrow>
          dict_get (column_order_map s) key = spec_last_index columns key)"
proof -
  let ?vd = "spec_values_dict s texts metadatas ids (heap w)"
  let ?rows = "spec_issued_rows s texts metadatas ids batch_size (heap w)"
  let ?b = "nat batch_size"
  let ?new = "spec_new_inserts w (snd (add_texts s texts metadatas ids batch_size w))"
  let ?cells = "spec_row_cells ?new"
  have new_eq: "?new = map (spec_insert_op s (spec_insert_columns s ids)) (spec_chunks ?b ?rows)"
    by (rule new_inserts_add_texts)
  have cells_eq: "?cells = map (zip (spec_insert_columns s ids)) ?rows"
    by (rule row_cells_add_texts)
  have keys: "spec_insert_columns s ids = dict_keys ?vd"
    by (simp add: dict_keys_spec_values_dict)
  have row_len: "length row = length (spec_insert_columns s ids)" if "row \<in> set ?rows" for row
  proof -
    from that obtain i where i: "i < length ?rows" and row: "row = ?rows ! i"
      by (auto simp: in_set_conv_nth)
    have "?rows = spec_rows ?vd (length (py_list texts))" and "i < length (py_list texts)"
      using issued_rows_built[OF i] by blast+
    then show ?thesis by (simp add: row spec_rows_def keys dict_keys_def)
  qed
  have ops: "insert_columns op = spec_insert_columns s ids
      \<and> (\<forall>row \<in> set (insert_values op). length row = length (insert_columns op))"
    if "op \<in> set ?new" for op
  proof -
    from that obtain c where c: "c \<in> set (spec_chunks ?b ?rows)"
      and op: "op = spec_insert_op s (spec_insert_columns s ids) c"
      by (auto simp: new_eq)
    have "0 < ?b" using c by (cases "?b = 0") (simp_all add: spec_chunks_zero)
    then show ?thesis
      using chunk_rows_subset[OF _ c] row_len by (auto simp: op spec_insert_op_def)
  qed
  have cell: "(case spec_collected s texts metadatas ids (heap w) key of
       Some (ValueList l) \<Rightarrow> i < length l \<and> map_of (?cells ! i) key = Some (l ! i)
     | Some NotSubscriptable \<Rightarrow> False
     | None \<Rightarrow> map_of (?cells ! i) key = None)"
    if "i < length ?cells" for i key
  proof -
    have i: "i < length ?rows" using that by (simp add: cells_eq)
    have rows: "?rows = spec_rows ?vd (length (py_list texts))"
      and n: "i < length (py_list texts)"
      and all: "\<forall>(key, v) \<in> set ?vd. \<exists>l. v = ValueList l \<and> i < length l"
      using issued_rows_built[OF i] by blast+
    have "?cells ! i = zip (dict_keys ?vd) (spec_rows ?vd (length (py_list texts)) ! i)"
      using i by (simp add: cells_eq keys[symmetric] rows[symmetric])
    then have cell_value: "map_of (?cells ! i) key =
        map_option (\<lambda>v. value_list v ! i) (spec_collected s texts metadatas ids (heap w) key)"
      by (simp add: spec_rows_cell[OF n] dict_get_spec_values_dict)
    show ?thesis
    proof (cases "spec_collected s texts metadatas ids (heap w) key")
      case None
      then show ?thesis using cell_value by simp
    next
      case (Some v)
      then have "(key, v) \<in> set ?vd" by (simp add: spec_values_dict_member)
      then obtain l where "v = ValueList l" "i < length l" using all by blast
      then show ?thesis using cell_value Some by simp
    qed
  qed
  have count: "length ?cells = length ts"
    if "texts = PySequence ts \<and> spec_valid_call s ts metadatas ids \<and> 0 < batch_size" for ts
  proof -
    from that have texts: "texts = PySequence ts" and valid: "spec_valid_call s ts metadatas ids"
      and positive: "0 < batch_size" by simp_all
    show ?thesis
      by (simp add: texts row_cells_add_texts issued_rows_valid[OF valid positive] spec_rows_def)
  qed
  have select: "search_request s embedding k pre_filter = Inl OverflowError
      \<or> (\<exists>rest. map_sum id sql (search_request s embedding k pre_filter) =
            Inr (''\<newline>            SELECT '' @ join '','' (self_columns_to_insert s) @ '','' @ rest))"
    by (simp add: search_request_def search_sql_template_def bind_err_def timedelta_seconds_def
          DISTANCE_SELECT_QUERY_NAME_def)
  have positions: "dict_get (column_order_map s) key = spec_last_index (self_columns_to_insert s) key"
    if "key \<noteq> DISTANCE_SELECT_QUERY_NAME" for key
    using that by (rule column_order_map_position)
  show ?thesis
    unfolding Let_def
    using insert_log_add_texts[of s texts metadatas ids batch_size w] ops cell count select
      column_order_map_distance[of s] positions
    by blast
qed

theorem column_orders_witness:
  "spec_row_cells
     (spec_new_inserts demo_world
        (snd (add_texts demo_store (PySequence [''a'']) None (Some [''k1'']) 5000 demo_world))) =
     [[(''source'', PyNone), (''metadata'', JsonObject []), (''id'', PyStr ''k1''),
       (''content'', PyStr ''a''), (''embedding'', PyList [PyFloat 1])]]
   \<and> length
       (spec_row_cells
          (spec_new_inserts demo_world
             (snd (add_texts demo_store (PySequence [''a'']) None (Some [''k1'']) 5000 demo_world)))) =
       length [''a'']
   \<and> dict_get (column_order_map demo_store) ''distance'' = Some 5
   \<and> dict_get (column_order_map demo_store) ''source'' = Some 3"
proof -
  note at_demo = column_orders [of demo_store "PySequence [''a'']" None "Some [''k1'']" 5000
                                  demo_world "[]" 4 None]
  have valid: "spec_valid_call demo_store [''a''] None (Some [''k1''])"
    by (simp add: spec_valid_call_def demo_store_def demo_embeddings_def)
  have positive: "(0 :: int) < 5000" by simp
  have rows: "length
       (spec_row_cells
          (spec_new_inserts demo_world
             (snd (add_texts demo_store (PySequence [''a'']) None (Some [''k1'']) 5000 demo_world)))) =
       length [''a'']"
    using at_demo valid positive unfolding Let_def by blast
  have "dict_get (column_order_map demo_store) DISTANCE_SELECT_QUERY_NAME =
      Some (length (self_columns_to_insert demo_store))"
    using at_demo unfolding Let_def by blast
  then have distance: "dict_get (column_order_map demo_store) ''distance'' = Some 5"
    by (simp add: DISTANCE_SELECT_QUERY_NAME_def demo_store_def)
  have "''source'' \<noteq> DISTANCE_SELECT_QUERY_NAME"
    by (simp add: DISTANCE_SELECT_QUERY_NAME_def)
  then have "dict_get (column_order_map demo_store) ''source'' =
      spec_last_index (self_columns_to_insert demo_store) ''source''"
    using at_demo unfolding Let_def by blast
  then have source: "dict_get (column_order_map demo_store) ''source'' = Some 3"
    by (simp add: demo_store_def)
  have cells: "spec_row_cells
     (spec_new_inserts demo_world
        (snd (add_texts demo_store (PySequence [''a'']) None (Some [''k1'']) 5000 demo_world))) =
     [[(''source'', PyNone), (''metadata'', JsonObject []), (''id'', PyStr ''k1''),
       (''content'', PyStr ''a''), (''embedding'', PyList [PyFloat 1])]]"
    by (simp add: add_texts_def collect_values_def demo_store_def demo_world_def
        demo_embeddings_def Let_def rows_to_insert_def build_row_def py_getitem_def py_index_def
        set_json_column_def append_column_values_def column_value_def dict_get_def
        dict_append_def dict_keys_def insert_batches.simps insert_data_def embedding_value_def
        upt_rec spec_row_cells_def spec_new_inserts_def)
  show ?thesis using cells rows distance source by simp
qed

text \<open>
  The column list of an insert is not the list fixed at construction: for the store
  that the constructor builds on the table \<open>docs\<close> the inserts name the metadata
  columns first, and leave the id column out when no ids are given.
\<close>

theorem insert_order_counterexample:
  "SpannerVectorStore_init demo_client ''inst'' ''db'' ''docs'' demo_embeddings
       ''id'' ''content'' ''embedding'' (Some [''source'']) None (Some ''metadata'')
       demo_query_parameters = Inr demo_store
   \<and> self_columns_to_insert demo_store = [''id'', ''content'', ''embedding'', ''source'', ''metadata'']
   \<and> map insert_columns
         (insert_log (snd (add_texts demo_store (PySequence [''a'']) None (Some [''k1'']) 5000
                             demo_world))) =
       [[''source'', ''metadata'', ''id'', ''content'', ''embedding'']]
   \<and> map insert_columns
         (insert_log (snd (add_texts demo_store (PySequence [''a'']) None None 5000 demo_world))) =
       [[''source'', ''metadata'', ''content'', ''embedding'']]"
  by (simp add: SpannerVectorStore_init_def demo_client_def demo_database_def
      add_texts_def collect_values_def demo_store_def demo_world_def
      demo_embeddings_def Let_def rows_to_insert_def build_row_def py_getitem_def py_index_def
      set_json_column_def append_column_values_def column_value_def dict_get_def dict_append_def
      dict_keys_def insert_batches.simps insert_data_def embedding_value_def upt_rec)

text \<open>
  Two cases that the wording above allows for. A store whose column list holds the
  name \<open>distance\<close> has that name sent to the position after the last column, not
  to its own. A store that lists a metadata column twice collects two values per row
  under it, so the second row gets a value of the first: here the second dictionary
  has no \<open>source\<close>, and its row holds the \<open>source\<close> of the first.
\<close>

lemma column_named_distance:
  "dict_get
     (column_order_map
        (demo_store\<lparr>self_columns_to_insert := [''id'', ''content'', ''embedding'', ''distance'']\<rparr>))
     ''distance'' = Some 4"
  by (simp add: column_order_map_def dict_get_dict_set DISTANCE_SELECT_QUERY_NAME_def)

lemma metadata_column_listed_twice:
  "map (\<lambda>row. map_of row ''source'')
     (spec_row_cells
        (spec_new_inserts demo_world
           (snd (add_texts (demo_store\<lparr>self_metadata_columns := [''source'', ''source'']\<rparr>)
                   (PySequence [''a'', ''bb'']) (Some [0, 1]) None 5000 demo_world)))) =
   [Some (PyStr ''web''), Some (PyStr ''web'')]"
  by (simp add: add_texts_def collect_values_def demo_store_def demo_world_def
      demo_embeddings_def Let_def rows_to_insert_def build_row_def py_getitem_def py_index_def
      set_json_column_def append_column_values_def column_value_def dict_get_def
      dict_append_def dict_keys_def insert_batches.simps insert_data_def embedding_value_def
      upt_rec spec_row_cells_def spec_new_inserts_def)

section \<open>Ingestion: the metadata dictionaries of the caller\<close>













end
